theory Spec2Isabelle
  imports Main "HOL-Library.Sublist"
begin

section \<open>Python values and built-in operations\<close>

text \<open>
  A Python \<open>str\<close> is a \<^typ>\<open>string\<close>: one \<^typ>\<open>char\<close> per code point, for the code
  points below 256. Decoded JSON and the other dynamically typed values of the two
  scripts are \<open>jval\<close>: \<open>None\<close> is \<open>JNull\<close>, a \<open>dict\<close> is an association list read with
  \<^const>\<open>map_of\<close>. JSON numbers are integers here; floats are left out.
\<close>

datatype jval =
    JNull
  | JBool bool
  | JNum int
  | JStr string
  | JArr "jval list"
  | JObj "(string \<times> jval) list"

text \<open>
  Exceptions below \<open>Exception\<close>, each carrying the text \<open>str(e)\<close>.
  \<open>RequestException\<close> is \<open>requests.exceptions.RequestException\<close> and its subclasses;
  \<open>PyError\<close> is every other class (\<open>TypeError\<close>, \<open>AttributeError\<close>, \<open>KeyError\<close>, ...).
\<close>

datatype exn = RequestException string | ValueError string | PyError string

fun str_exn :: "exn \<Rightarrow> string" where
  "str_exn (RequestException m) = m"
| "str_exn (ValueError m) = m"
| "str_exn (PyError m) = m"

text \<open>\<open>sub in s\<close> on two strings: \<open>sub\<close> occurs in \<open>s\<close> as a contiguous block.\<close>

fun py_in :: "string \<Rightarrow> string \<Rightarrow> bool" where
  "py_in sub [] = (sub = [])"
| "py_in sub (c # cs) = (prefix sub (c # cs) \<or> py_in sub cs)"

text \<open>\<open>s.strip(ch)\<close> for a one-character argument: drops every leading and trailing \<open>ch\<close>.\<close>

definition py_strip :: "char \<Rightarrow> string \<Rightarrow> string" where
  "py_strip ch s = rev (dropWhile (\<lambda>c. c = ch) (rev (dropWhile (\<lambda>c. c = ch) s)))"

section \<open>The shortcode extractor (partnership\_ads\_booster.py, lines 28-62)\<close>

text \<open>
  The pattern
  \<^verbatim>\<open>(?:https?://)?(?:www\.)?instagram\.com/(?:p|reel|tv)/([A-Za-z0-9_-]+)\<close>
  is read with backtracking combinators: a piece maps the text at the current position
  to the list of texts that may remain after it, in the order in which the \<open>re\<close> engine
  tries them (an optional piece first with, then without; an alternation left to right).
\<close>

type_synonym piece = "string \<Rightarrow> string list"

fun lit_rest :: "string \<Rightarrow> string \<Rightarrow> string option" where
  "lit_rest [] s = Some s"
| "lit_rest (p # ps) [] = None"
| "lit_rest (p # ps) (c # cs) = (if p = c then lit_rest ps cs else None)"

definition lit :: "string \<Rightarrow> piece" where
  "lit p s = (case lit_rest p s of Some r \<Rightarrow> [r] | None \<Rightarrow> [])"

definition seq :: "piece \<Rightarrow> piece \<Rightarrow> piece" where
  "seq a b s = concat (map b (a s))"

definition alt :: "piece \<Rightarrow> piece \<Rightarrow> piece" where
  "alt a b s = a s @ b s"

definition opt :: "piece \<Rightarrow> piece" where
  "opt a s = a s @ [s]"

definition is_code_char :: "char \<Rightarrow> bool" where
  "is_code_char c \<longleftrightarrow>
     c \<in> set ''ABCDEFGHIJKLMNOPQRSTUVWXYZabcdefghijklmnopqrstuvwxyz0123456789_-''"

definition scheme :: piece where
  "scheme = seq (lit ''http'') (seq (opt (lit ''s'')) (lit ''://''))"

definition kind :: piece where
  "kind = alt (lit ''p'') (alt (lit ''reel'') (lit ''tv''))"

definition url_prefix :: piece where
  "url_prefix =
     seq (opt scheme)
    (seq (opt (lit ''www.''))
    (seq (lit ''instagram.com/'')
    (seq kind (lit ''/''))))"

text \<open>
  A match that starts at the head of \<open>s\<close>: the first way through \<open>url_prefix\<close> after
  which the group \<open>([A-Za-z0-9_-]+)\<close> finds at least one character; the group is greedy
  and nothing follows it, so it captures the whole run. The result is \<open>match.group(1)\<close>.
\<close>

definition match_here :: "string \<Rightarrow> string option" where
  "match_here s =
     (case filter (\<lambda>g. g \<noteq> []) (map (takeWhile is_code_char) (url_prefix s)) of
        [] \<Rightarrow> None
      | g # _ \<Rightarrow> Some g)"

text \<open>\<open>re.search\<close>: the leftmost position with a match.\<close>

fun re_search :: "string \<Rightarrow> string option" where
  "re_search [] = match_here []"
| "re_search (c # cs) =
     (case match_here (c # cs) of Some g \<Rightarrow> Some g | None \<Rightarrow> re_search cs)"

definition extract_instagram_shortcode :: "string \<Rightarrow> exn + string" where
  "extract_instagram_shortcode permalink =
     (if permalink = [] then Inr permalink
      else if py_in ''/stories/'' permalink
        then Inl (ValueError ''Stories boosting is not supported by this script'')
      else (case re_search permalink of
              Some g \<Rightarrow> Inr g
            | None \<Rightarrow> Inr (py_strip CHR ''/'' permalink)))"

subsection \<open>Auxiliary notions for the extractor\<close>

text \<open>A piece consumes input: whatever it leaves is a suffix of what it was given.\<close>

definition consumes :: "piece \<Rightarrow> bool" where
  "consumes a \<longleftrightarrow> (\<forall>s r. r \<in> set (a s) \<longrightarrow> suffix r s)"

definition kinds :: "string set" where
  "kinds = {''p'', ''reel'', ''tv''}"

definition host :: string where
  "host = ''instagram.com/''"

definition path :: piece where
  "path = seq (lit host) (seq kind (lit ''/''))"

text \<open>
  The text contains a post URL: the host, one of the three path prefixes, a slash and at
  least one shortcode character. This is what \<open>re_search\<close> finds (lemma
  \<open>re_search_has_url\<close>); the optional scheme and \<open>www.\<close> never decide whether there is
  a match.
\<close>

definition has_url :: "string \<Rightarrow> bool" where
  "has_url s \<longleftrightarrow>
     (\<exists>a k c b. k \<in> kinds \<and> is_code_char c \<and> s = a @ host @ k @ ''/'' @ c # b)"

text \<open>
  The specification's wording for a bare identifier, "strip only a trailing slash",
  kept apart from the source's \<open>strip("/")\<close> to compare the two.
\<close>

definition spec_strip_trailing_slash :: "string \<Rightarrow> string" where
  "spec_strip_trailing_slash s = (if s \<noteq> [] \<and> last s = CHR ''/'' then butlast s else s)"

section \<open>Dynamic operations on Python values\<close>

type_synonym dict = "(string \<times> jval) list"

text \<open>Truthiness, as \<open>if x\<close>, \<open>not x\<close> and \<open>x or y\<close> read it.\<close>

fun truthy :: "jval \<Rightarrow> bool" where
  "truthy JNull = False"
| "truthy (JBool b) = b"
| "truthy (JNum n) = (n \<noteq> 0)"
| "truthy (JStr s) = (s \<noteq> [])"
| "truthy (JArr xs) = (xs \<noteq> [])"
| "truthy (JObj kv) = (kv \<noteq> [])"

definition py_or :: "jval \<Rightarrow> jval \<Rightarrow> jval" where
  "py_or a b = (if truthy a then a else b)"

fun type_name :: "jval \<Rightarrow> string" where
  "type_name JNull = ''NoneType''"
| "type_name (JBool b) = ''bool''"
| "type_name (JNum n) = ''int''"
| "type_name (JStr s) = ''str''"
| "type_name (JArr xs) = ''list''"
| "type_name (JObj kv) = ''dict''"

text \<open>\<open>d.get(k, default)\<close> on a value known to be a \<open>dict\<close>.\<close>

definition dict_get :: "dict \<Rightarrow> string \<Rightarrow> jval \<Rightarrow> jval" where
  "dict_get d k dflt = (case map_of d k of Some v \<Rightarrow> v | None \<Rightarrow> dflt)"

text \<open>\<open>x.get(k, default)\<close> on any value: only a \<open>dict\<close> has the method.\<close>

fun py_get :: "jval \<Rightarrow> string \<Rightarrow> jval \<Rightarrow> exn + jval" where
  "py_get (JObj d) k dflt = Inr (dict_get d k dflt)"
| "py_get x k dflt =
     Inl (PyError ([CHR 0x27] @ type_name x @ [CHR 0x27] @ '' object has no attribute ''
                   @ [CHR 0x27] @ ''get'' @ [CHR 0x27]))"

text \<open>Decimal numerals, as \<open>str\<close> and f-strings print an \<open>int\<close>.\<close>

definition digit_char :: "nat \<Rightarrow> char" where
  "digit_char d = ''0123456789'' ! d"

fun str_nat :: "nat \<Rightarrow> string" where
  "str_nat n = (if n < 10 then [digit_char n] else str_nat (n div 10) @ [digit_char (n mod 10)])"

definition str_int :: "int \<Rightarrow> string" where
  "str_int i = (if i < 0 then CHR ''-'' # str_nat (nat (- i)) else str_nat (nat i))"

text \<open>
  \<open>str(x)\<close>, as an f-string formats \<open>x\<close>. The text of a \<open>list\<close> or \<open>dict\<close> is Python's
  \<open>repr\<close>, a built-in that is passed in as \<open>repr\<close>.
\<close>

fun py_str :: "(jval \<Rightarrow> string) \<Rightarrow> jval \<Rightarrow> string" where
  "py_str repr JNull = ''None''"
| "py_str repr (JBool b) = (if b then ''True'' else ''False'')"
| "py_str repr (JNum n) = str_int n"
| "py_str repr (JStr s) = s"
| "py_str repr x = repr x"

text \<open>
  \<open>s.upper()\<close> on the letters \<open>a\<close> to \<open>z\<close>. Python also maps letters outside ASCII; none of
  them maps into ASCII except the sharp s, which becomes \<open>SS\<close>, so comparing the result
  with \<open>GET\<close>, \<open>POST\<close> or \<open>DELETE\<close> gives the same answer as here.
\<close>

definition upper_char :: "char \<Rightarrow> char" where
  "upper_char c =
     (case map_of (zip ''abcdefghijklmnopqrstuvwxyz'' ''ABCDEFGHIJKLMNOPQRSTUVWXYZ'') c of
        Some u \<Rightarrow> u
      | None \<Rightarrow> c)"

definition py_upper :: "string \<Rightarrow> string" where
  "py_upper s = map upper_char s"

section \<open>The remote API as an environment\<close>

text \<open>
  A call of \<open>requests.get\<close>, \<open>requests.post\<close> or \<open>requests.delete\<close> is a \<open>request\<close>; \<open>verb\<close>
  names the function called. A parameter value is a Python value, or the string that
  \<open>json.dumps\<close> makes of one (kept as the value it serialises).
\<close>

datatype param = PVal jval | PDumps jval

record request =
  verb :: string
  url :: jval
  headers :: "(string \<times> string) list"
  params :: "(string \<times> param) list option"
  json_data :: "jval option"

text \<open>
  A response: \<open>status_code\<close>, \<open>text\<close>, and what \<open>response.json()\<close> does, which is to raise
  or to return the decoded body. A body that decodes is a JSON object, as the Graph API
  sends and as the wrapper's result type \<open>Optional[Dict]\<close> says.
\<close>

record response =
  status_code :: int
  resp_text :: string
  json :: "exn + dict"

text \<open>
  The remote side decides every call from the calls made so far: it raises
  (connection failure, timeout, invalid URL) or it responds. Every function that
  reaches the network takes the log of calls and returns it extended.
\<close>

type_synonym net = "request list \<Rightarrow> request \<Rightarrow> exn + response"

definition bearer_headers :: "string \<Rightarrow> (string \<times> string) list" where
  "bearer_headers access_token =
     [(''Content-Type'', ''application/json''), (''Authorization'', ''Bearer '' @ access_token)]"

section \<open>The HTTP request wrapper (cpas\_api\_client.py, lines 25-76)\<close>

text \<open>The request that lines 47-59 build, or nothing for a method that is not supported.\<close>

definition build_request ::
  "string \<Rightarrow> string \<Rightarrow> string \<Rightarrow> (string \<times> param) list option \<Rightarrow> jval option \<Rightarrow> string
     \<Rightarrow> request option" where
  "build_request access_token endpoint method ps data api_version =
     (let u = JStr (''https://graph.facebook.com/'' @ api_version @ ''/'' @ endpoint);
          h = bearer_headers access_token
      in if py_upper method = ''GET''
           then Some \<lparr>verb = ''GET'', url = u, headers = h, params = ps, json_data = None\<rparr>
         else if py_upper method = ''POST''
           then Some \<lparr>verb = ''POST'', url = u, headers = h, params = ps, json_data = data\<rparr>
         else if py_upper method = ''DELETE''
           then Some \<lparr>verb = ''DELETE'', url = u, headers = h, params = ps, json_data = None\<rparr>
         else None)"

text \<open>
  The body of the \<open>try\<close> block, lines 54-71: it returns the pair \<open>(response_data, error)\<close>
  or raises. \<open>error.get\<close> raises \<open>AttributeError\<close> when the \<open>error\<close> entry is not a \<open>dict\<close>.
\<close>

definition request_body ::
  "(jval \<Rightarrow> string) \<Rightarrow> net \<Rightarrow> request list \<Rightarrow> string \<Rightarrow> string \<Rightarrow> string
     \<Rightarrow> (string \<times> param) list option \<Rightarrow> jval option \<Rightarrow> string
     \<Rightarrow> (exn + dict option \<times> string option) \<times> request list" where
  "request_body repr nt log access_token endpoint method ps data api_version =
     (case build_request access_token endpoint method ps data api_version of
        None \<Rightarrow> (Inr (None, Some (''Unsupported HTTP method: '' @ method)), log)
      | Some req \<Rightarrow>
          (case nt log req of
             Inl e \<Rightarrow> (Inl e, log @ [req])
           | Inr response \<Rightarrow>
               (case json response of
                  Inl e \<Rightarrow> (Inl e, log @ [req])
                | Inr response_data \<Rightarrow>
                    if status_code response = 200
                      then (Inr (Some response_data, None), log @ [req])
                    else
                      (let error = dict_get response_data ''error'' (JObj []) in
                       case py_get error ''message'' (JStr (resp_text response)) of
                         Inl e \<Rightarrow> (Inl e, log @ [req])
                       | Inr error_msg \<Rightarrow>
                           (case py_get error ''code'' (JNum (status_code response)) of
                              Inl e \<Rightarrow> (Inl e, log @ [req])
                            | Inr error_code \<Rightarrow>
                                (Inr (None, Some (''API Error '' @ py_str repr error_code
                                                   @ '': '' @ py_str repr error_msg)),
                                 log @ [req]))))))"

text \<open>The two \<open>except\<close> clauses, lines 73-76, in their order.\<close>

fun caught :: "exn \<Rightarrow> dict option \<times> string option" where
  "caught (RequestException m) = (None, Some (''Request error: '' @ m))"
| "caught e = (None, Some (''Unexpected error: '' @ str_exn e))"

definition make_api_request ::
  "(jval \<Rightarrow> string) \<Rightarrow> net \<Rightarrow> request list \<Rightarrow> string \<Rightarrow> string \<Rightarrow> string
     \<Rightarrow> (string \<times> param) list option \<Rightarrow> jval option \<Rightarrow> string
     \<Rightarrow> (dict option \<times> string option) \<times> request list" where
  "make_api_request repr nt log access_token endpoint method ps data api_version =
     (case request_body repr nt log access_token endpoint method ps data api_version of
        (Inl e, log') \<Rightarrow> (caught e, log')
      | (Inr r, log') \<Rightarrow> (r, log'))"

subsection \<open>Fixtures for concrete runs of the wrapper\<close>

definition no_repr :: "jval \<Rightarrow> string" where
  "no_repr x = ''<repr>''"

definition ok_empty_net :: net where
  "ok_empty_net log req = Inr \<lparr>status_code = 200, resp_text = ''{}'', json = Inr []\<rparr>"

definition html_500_net :: net where
  "html_500_net log req =
     Inr \<lparr>status_code = 500, resp_text = ''<html>Internal Server Error</html>'',
          json = Inl (RequestException ''Expecting value: line 1 column 1 (char 0)'')\<rparr>"

definition graph_400_net :: net where
  "graph_400_net log req =
     Inr \<lparr>status_code = 400, resp_text = ''Error text'',
          json = Inr [(''error'', JObj [(''code'', JNum 100),
                                        (''message'', JStr ''Invalid parameter'')])]\<rparr>"

definition timeout_net :: net where
  "timeout_net log req = Inl (RequestException ''Connection timed out'')"

fun is_request_exception :: "exn \<Rightarrow> bool" where
  "is_request_exception (RequestException m) = True"
| "is_request_exception e = False"

section \<open>More built-ins used by the booster\<close>

text \<open>
  The keys of a \<open>dict\<close>, each once, in the order of first occurrence in the association
  list.
\<close>

fun dict_keys :: "dict \<Rightarrow> string list" where
  "dict_keys [] = []"
| "dict_keys ((k, v) # kv) = k # filter (\<lambda>k'. k' \<noteq> k) (dict_keys kv)"

text \<open>\<open>len(x)\<close>: defined on strings, lists and dicts, a \<open>TypeError\<close> on the rest.\<close>

fun py_len :: "jval \<Rightarrow> exn + nat" where
  "py_len (JStr s) = Inr (length s)"
| "py_len (JArr xs) = Inr (length xs)"
| "py_len (JObj kv) = Inr (length (dict_keys kv))"
| "py_len x = Inl (PyError (''object of type '' @ [CHR 0x27] @ type_name x @ [CHR 0x27]
                            @ '' has no len()''))"

text \<open>\<open>x[0]\<close>. A decoded JSON object has only string keys, so \<open>d[0]\<close> is a \<open>KeyError\<close>.\<close>

fun py_first :: "jval \<Rightarrow> exn + jval" where
  "py_first (JArr (x # xs)) = Inr x"
| "py_first (JArr []) = Inl (PyError ''list index out of range'')"
| "py_first (JStr (c # cs)) = Inr (JStr [c])"
| "py_first (JStr []) = Inl (PyError ''string index out of range'')"
| "py_first (JObj kv) = Inl (PyError ''0'')"
| "py_first x = Inl (PyError ([CHR 0x27] @ type_name x @ [CHR 0x27]
                              @ '' object is not subscriptable''))"

text \<open>\<open>sep.join(xs)\<close> on strings.\<close>

fun join :: "string \<Rightarrow> string list \<Rightarrow> string" where
  "join sep [] = []"
| "join sep [x] = x"
| "join sep (x # y # ys) = x @ sep @ join sep (y # ys)"

text \<open>
  The items of a list for \<open>join\<close>, counted from \<open>i\<close>: every item must be a \<open>str\<close>, and the
  first that is not raises a \<open>TypeError\<close> naming its position and type.
\<close>

fun str_items :: "nat \<Rightarrow> jval list \<Rightarrow> exn + string list" where
  "str_items i [] = Inr []"
| "str_items i (JStr s # xs) =
     (case str_items (Suc i) xs of Inl e \<Rightarrow> Inl e | Inr ss \<Rightarrow> Inr (s # ss))"
| "str_items i (x # xs) =
     Inl (PyError (''sequence item '' @ str_nat i @ '': expected str instance, ''
                   @ type_name x @ '' found''))"

text \<open>\<open>sep.join(x)\<close> on any value: a list of strings, the characters of a string, the keys
  of a dict; a \<open>TypeError\<close> on the rest.\<close>

fun py_join :: "string \<Rightarrow> jval \<Rightarrow> exn + string" where
  "py_join sep (JArr xs) =
     (case str_items 0 xs of Inl e \<Rightarrow> Inl e | Inr ss \<Rightarrow> Inr (join sep ss))"
| "py_join sep (JStr s) = Inr (join sep (map (\<lambda>c. [c]) s))"
| "py_join sep (JObj kv) = Inr (join sep (dict_keys kv))"
| "py_join sep x = Inl (PyError ''can only join an iterable'')"

text \<open>\<open>e or default\<close> on an optional string, and \<open>if e\<close>.\<close>

definition str_or :: "string option \<Rightarrow> string \<Rightarrow> string" where
  "str_or e dflt = (case e of None \<Rightarrow> dflt | Some m \<Rightarrow> if m = [] then dflt else m)"

definition opt_truthy :: "string option \<Rightarrow> bool" where
  "opt_truthy e = (case e of None \<Rightarrow> False | Some m \<Rightarrow> m \<noteq> [])"

section \<open>The four remote operations of the booster (partnership\_ads\_booster.py)\<close>

text \<open>
  Each operation returns a pair of its result and the extended log. The result is \<open>Inl e\<close>
  when the function raises \<open>e\<close>. The tuples \<open>(id, error)\<close> hold \<open>JNull\<close> for a \<open>None\<close> id.
\<close>

definition fields_wanted :: string where
  "fields_wanted = ''eligibility_errors,owner_id,permalink,id,has_permission_for_partnership_ad''"

text \<open>Lines 261-305. \<open>ad_code\<close> and \<open>permalinks\<close> are the two keyword arguments.\<close>

definition eligibility_request ::
  "string \<Rightarrow> string \<Rightarrow> string option \<Rightarrow> string list option \<Rightarrow> exn + request" where
  "eligibility_request access_token ig_account_id ad_code permalinks =
     (let u = JStr (''https://graph.facebook.com/v22.0/'' @ ig_account_id
                    @ ''/branded_content_advertisable_medias'');
          ps = [(''fields'', PVal (JStr fields_wanted))]
      in if opt_truthy ad_code
           then Inr \<lparr>verb = ''GET'', url = u, headers = bearer_headers access_token,
                     params = Some (ps @ [(''ad_code'', PVal (JStr (the ad_code)))]),
                     json_data = None\<rparr>
         else if permalinks \<noteq> None \<and> permalinks \<noteq> Some []
           then Inr \<lparr>verb = ''GET'', url = u, headers = bearer_headers access_token,
                     params = Some (ps @ [(''permalinks'',
                                           PDumps (JArr (map JStr (the permalinks))))]),
                     json_data = None\<rparr>
         else Inl (ValueError ''ad_code or permalinks must be passed''))"

definition first_media :: "dict \<Rightarrow> exn + jval" where
  "first_media response_data =
     (case map_of response_data ''data'' of
        None \<Rightarrow> Inr JNull
      | Some d \<Rightarrow>
          (case py_len d of
             Inl e \<Rightarrow> Inl e
           | Inr n \<Rightarrow> if n > 0 then py_first d else Inr JNull))"

definition fetch_branded_content_advertisable_medias ::
  "net \<Rightarrow> request list \<Rightarrow> string \<Rightarrow> string \<Rightarrow> string option \<Rightarrow> string list option
     \<Rightarrow> (exn + jval) \<times> request list" where
  "fetch_branded_content_advertisable_medias nt log access_token ig_account_id ad_code permalinks =
     (case eligibility_request access_token ig_account_id ad_code permalinks of
        Inl e \<Rightarrow> (Inl e, log)
      | Inr req \<Rightarrow>
          (case nt log req of
             Inl e \<Rightarrow> (Inl e, log @ [req])
           | Inr response \<Rightarrow>
               if status_code response = 200
                 then (case json response of
                         Inl e \<Rightarrow> (Inl e, log @ [req])
                       | Inr response_data \<Rightarrow> (first_media response_data, log @ [req]))
               else (Inr (JObj [(''error'', JStr (resp_text response))]), log @ [req])))"

text \<open>Lines 308-352. Nothing is caught here: a failing call or body raises.\<close>

definition upload_request :: "string \<Rightarrow> string \<Rightarrow> jval \<Rightarrow> string option \<Rightarrow> request" where
  "upload_request access_token ad_account_id source_instagram_media_id ad_code =
     \<lparr>verb = ''POST'',
      url = JStr (''https://graph.facebook.com/v22.0/act_'' @ ad_account_id @ ''/advideos''),
      headers = bearer_headers access_token,
      params = Some ([(''source_instagram_media_id'', PVal source_instagram_media_id)]
                     @ (if opt_truthy ad_code
                          then [(''partnership_ad_ad_code'', PVal (JStr (the ad_code))),
                                (''is_partnership_ad'', PVal (JBool True))]
                        else [])),
      json_data = None\<rparr>"

definition upload_instagram_video ::
  "net \<Rightarrow> request list \<Rightarrow> string \<Rightarrow> string \<Rightarrow> jval \<Rightarrow> string option
     \<Rightarrow> (exn + jval \<times> string option) \<times> request list" where
  "upload_instagram_video nt log access_token ad_account_id source_instagram_media_id ad_code =
     (let req = upload_request access_token ad_account_id source_instagram_media_id ad_code in
      case nt log req of
        Inl e \<Rightarrow> (Inl e, log @ [req])
      | Inr response \<Rightarrow>
          if status_code response = 200
            then (case json response of
                    Inl e \<Rightarrow> (Inl e, log @ [req])
                  | Inr response_data \<Rightarrow>
                      (case map_of response_data ''id'' of
                         Some i \<Rightarrow> (Inr (i, None), log @ [req])
                       | None \<Rightarrow>
                           (Inr (JNull, Some (''Video upload: '' @ [CHR 0x27] @ ''id''
                                              @ [CHR 0x27] @ '' not found in response data'')),
                            log @ [req])))
          else (Inr (JNull, Some (''Video upload failed: '' @ str_int (status_code response)
                                  @ '' - '' @ resp_text response)),
                log @ [req]))"

text \<open>Lines 355-453. The \<open>ValueError\<close> is raised before the \<open>try\<close>; inside it every
  exception becomes an error string.\<close>

definition creative_request ::
  "string \<Rightarrow> string \<Rightarrow> string \<Rightarrow> string \<Rightarrow> jval \<Rightarrow> string option \<Rightarrow> string \<Rightarrow> string
     \<Rightarrow> string option \<Rightarrow> string option \<Rightarrow> exn + request" where
  "creative_request access_token ad_account_id facebook_page_id ig_account_id
       source_instagram_media_id ad_code cta_type link app_link product_set_id =
     (let cta_value = [(''link'', JStr link)]
                      @ (if opt_truthy app_link then [(''app_link'', JStr (the app_link))] else []);
          ps = [(''object_id'', PVal (JStr facebook_page_id)),
                (''facebook_branded_content'',
                   PDumps (JObj [(''sponsor_page_id'', JStr facebook_page_id)])),
                (''instagram_branded_content'',
                   PDumps (JObj [(''sponsor_id'', JStr ig_account_id)])),
                (''call_to_action'',
                   PDumps (JObj [(''type'', JStr cta_type), (''value'', JObj cta_value)]))];
          extra = (if opt_truthy product_set_id
                     then [(''degrees_of_freedom_spec'',
                              PDumps (JObj [(''creative_features_spec'',
                                 JObj [(''product_extensions'',
                                    JObj [(''enroll_status'', JStr ''OPT_IN'')])])])),
                           (''creative_sourcing_spec'',
                              PDumps (JObj [(''associated_product_set_id'',
                                             JStr (the product_set_id))]))]
                   else []);
          mk = (\<lambda>who. \<lparr>verb = ''POST'',
                        url = JStr (''https://graph.facebook.com/v23.0/act_'' @ ad_account_id
                                    @ ''/adcreatives''),
                        headers = bearer_headers access_token,
                        params = Some (ps @ who @ extra), json_data = None\<rparr>)
      in if opt_truthy ad_code
           then Inr (mk [(''branded_content'',
                          PDumps (JObj [(''instagram_boost_post_access_token'',
                                         JStr (the ad_code))]))])
         else if truthy source_instagram_media_id
           then Inr (mk [(''source_instagram_media_id'', PVal source_instagram_media_id)])
         else Inl (ValueError ''ad_code or source_instagram_media_id must be passed''))"

fun creative_caught :: "exn \<Rightarrow> jval \<times> string option" where
  "creative_caught (RequestException m) = (JNull, Some (''Creative creation request error: '' @ m))"
| "creative_caught e = (JNull, Some (''Creative creation unknown error: '' @ str_exn e))"

definition create_ad_creative ::
  "net \<Rightarrow> request list \<Rightarrow> string \<Rightarrow> string \<Rightarrow> string \<Rightarrow> string \<Rightarrow> jval \<Rightarrow> string option
     \<Rightarrow> string \<Rightarrow> string \<Rightarrow> string option \<Rightarrow> string option
     \<Rightarrow> (exn + jval \<times> string option) \<times> request list" where
  "create_ad_creative nt log access_token ad_account_id facebook_page_id ig_account_id
       source_instagram_media_id ad_code cta_type link app_link product_set_id =
     (case creative_request access_token ad_account_id facebook_page_id ig_account_id
             source_instagram_media_id ad_code cta_type link app_link product_set_id of
        Inl e \<Rightarrow> (Inl e, log)
      | Inr req \<Rightarrow>
          (case nt log req of
             Inl e \<Rightarrow> (Inr (creative_caught e), log @ [req])
           | Inr response \<Rightarrow>
               (case json response of
                  Inl e \<Rightarrow> (Inr (creative_caught e), log @ [req])
                | Inr response_data \<Rightarrow>
                    if status_code response = 200
                      then (case map_of response_data ''id'' of
                              Some i \<Rightarrow> (Inr (i, None), log @ [req])
                            | None \<Rightarrow>
                                (Inr (JNull, Some (''Creative creation: '' @ [CHR 0x27] @ ''id''
                                                   @ [CHR 0x27] @ '' not found in response data'')),
                                 log @ [req]))
                    else (Inr (JNull, Some (''Creative creation failed: ''
                                            @ str_int (status_code response) @ '' - ''
                                            @ resp_text response)),
                          log @ [req]))))"

text \<open>Lines 456-511. Only a \<open>RequestException\<close> is caught; any other exception raises.\<close>

definition ad_request :: "string \<Rightarrow> string \<Rightarrow> string \<Rightarrow> string \<Rightarrow> jval \<Rightarrow> request" where
  "ad_request access_token ad_account_id ad_name ad_set_id creative_id =
     \<lparr>verb = ''POST'',
      url = JStr (''https://graph.facebook.com/v22.0/act_'' @ ad_account_id @ ''/ads''),
      headers = bearer_headers access_token,
      params = Some [(''status'', PVal (JStr ''PAUSED'')),
                     (''name'', PVal (JStr ad_name)),
                     (''adset_id'', PVal (JStr ad_set_id)),
                     (''creative'', PDumps (JObj [(''creative_id'', creative_id)]))],
      json_data = None\<rparr>"

definition ad_label :: "string \<Rightarrow> string \<Rightarrow> string" where
  "ad_label ad_name ad_set_id =
     [CHR 0x27] @ ad_name @ [CHR 0x27] @ '' (ad_set_id: '' @ ad_set_id @ '')''"

fun ad_caught :: "string \<Rightarrow> string \<Rightarrow> exn \<Rightarrow> exn + jval \<times> string option" where
  "ad_caught ad_name ad_set_id (RequestException m) =
     Inr (JNull, Some (''Ad creation request error for ad '' @ ad_label ad_name ad_set_id
                       @ '': '' @ m))"
| "ad_caught ad_name ad_set_id e = Inl e"

definition create_ad ::
  "net \<Rightarrow> request list \<Rightarrow> string \<Rightarrow> string \<Rightarrow> string \<Rightarrow> string \<Rightarrow> jval
     \<Rightarrow> (exn + jval \<times> string option) \<times> request list" where
  "create_ad nt log access_token ad_account_id ad_name ad_set_id creative_id =
     (let req = ad_request access_token ad_account_id ad_name ad_set_id creative_id in
      case nt log req of
        Inl e \<Rightarrow> (ad_caught ad_name ad_set_id e, log @ [req])
      | Inr response \<Rightarrow>
          (case json response of
             Inl e \<Rightarrow> (ad_caught ad_name ad_set_id e, log @ [req])
           | Inr response_data \<Rightarrow>
               if status_code response = 200
                 then (case map_of response_data ''id'' of
                         Some i \<Rightarrow> (Inr (i, None), log @ [req])
                       | None \<Rightarrow>
                           (Inr (JNull, Some (''Ad creation: '' @ [CHR 0x27] @ ''id'' @ [CHR 0x27]
                                              @ '' not found in response data for ad name ''
                                              @ ad_label ad_name ad_set_id)),
                            log @ [req]))
               else (Inr (JNull, Some (''Ad creation failed for ad '' @ ad_label ad_name ad_set_id
                                       @ '': '' @ str_int (status_code response) @ '' - ''
                                       @ resp_text response)),
                     log @ [req])))"

section \<open>The per-row pipeline (partnership\_ads\_booster.py, lines 514-769)\<close>

text \<open>
  A row read by \<open>csv.DictReader\<close> is a \<open>dict\<close>: \<open>items\<close> holds the cells under the column
  names, in the order of the header; a cell is a string, or \<open>None\<close> where the line was
  shorter than the header. Where the line had more cells than the header, \<open>DictReader\<close>
  stores the surplus cells as a list under the key \<open>None\<close>: this is \<open>rest\<close>. An output row
  holds Python values, since the three ids come from decoded JSON; being a copy of the
  row it is written for, it carries the key \<open>None\<close> of that row.
\<close>

type_synonym cell = "string option"

record 'v dictrow =
  items :: "(string \<times> 'v) list"
  rest :: "string list option"

type_synonym csv_row = "cell dictrow"
type_synonym out_row = "jval dictrow"

text \<open>\<open>d[k] = v\<close>: the value of a key that is there is replaced, a new key comes last.\<close>

fun dict_set :: "string \<Rightarrow> 'v \<Rightarrow> (string \<times> 'v) list \<Rightarrow> (string \<times> 'v) list" where
  "dict_set k v [] = [(k, v)]"
| "dict_set k v ((k', v') # kv) = (if k' = k then (k, v) # kv else (k', v') # dict_set k v kv)"

text \<open>The value under a column name, if the name is a key.\<close>

definition entry :: "'v dictrow \<Rightarrow> string \<Rightarrow> 'v option" where
  "entry r k = map_of (items r) k"

definition row_get :: "csv_row \<Rightarrow> string \<Rightarrow> cell \<Rightarrow> cell" where
  "row_get row k dflt = (case entry row k of None \<Rightarrow> dflt | Some v \<Rightarrow> v)"

definition row_copy :: "csv_row \<Rightarrow> out_row" where
  "row_copy row =
     \<lparr>items = map (\<lambda>(k, v). (k, case v of None \<Rightarrow> JNull | Some s \<Rightarrow> JStr s)) (items row),
      rest = rest row\<rparr>"

text \<open>The five assignments that every branch makes before it appends the row.\<close>

definition set_result :: "out_row \<Rightarrow> string \<Rightarrow> string \<Rightarrow> jval \<Rightarrow> jval \<Rightarrow> jval \<Rightarrow> out_row" where
  "set_result output_row st err video_id creative_id published_ad_id =
     output_row\<lparr>items :=
       dict_set ''published_ad_id'' published_ad_id
         (dict_set ''creative_id'' creative_id
            (dict_set ''video_id'' video_id
               (dict_set ''error'' (JStr err)
                  (dict_set ''status'' (JStr st) (items output_row)))))\<rparr>"

text \<open>
  What the \<open>try\<close> block of lines 611-739 does: it appends a row (and the loop goes on), or
  it raises, and then the handler of lines 741-749 reads \<open>video_id\<close>, \<open>creative_id\<close> and
  \<open>published_ad_id\<close> as they were when the exception was raised.
\<close>

datatype try_result = Raised exn jval jval jval | Appended "out_row list"

text \<open>Lines 720-739: ad publication and the success row.\<close>

definition publish_stage ::
  "net \<Rightarrow> request list \<Rightarrow> string \<Rightarrow> string \<Rightarrow> out_row list \<Rightarrow> out_row \<Rightarrow> string \<Rightarrow> string
     \<Rightarrow> jval \<Rightarrow> jval \<Rightarrow> try_result \<times> request list" where
  "publish_stage nt log access_token ad_account_id output_rows output_row ad_name ad_set_id
       video_id creative_id =
     (case create_ad nt log access_token ad_account_id ad_name ad_set_id creative_id of
        (Inl e, log') \<Rightarrow> (Raised e video_id creative_id JNull, log')
      | (Inr (published_ad_id, ad_error), log') \<Rightarrow>
          if \<not> truthy published_ad_id
            then (Appended (output_rows @
                    [set_result output_row ''failed'' (str_or ad_error ''Ad creation failed'')
                       (py_or video_id (JStr [])) (py_or creative_id (JStr [])) (JStr [])]),
                  log')
          else (Appended (output_rows @
                  [set_result output_row ''success'' []
                     (py_or video_id (JStr [])) (py_or creative_id (JStr []))
                     (py_or published_ad_id (JStr []))]),
                log'))"

text \<open>Lines 697-718: creative creation.\<close>

definition creative_stage ::
  "net \<Rightarrow> request list \<Rightarrow> string \<Rightarrow> string \<Rightarrow> string \<Rightarrow> string \<Rightarrow> out_row list \<Rightarrow> out_row
     \<Rightarrow> cell \<Rightarrow> cell \<Rightarrow> cell \<Rightarrow> cell \<Rightarrow> cell \<Rightarrow> cell \<Rightarrow> cell \<Rightarrow> jval \<Rightarrow> jval
     \<Rightarrow> try_result \<times> request list" where
  "creative_stage nt log access_token ig_account_id ad_account_id facebook_page_id output_rows
       output_row ad_code cta_type link app_link ad_name ad_set_id product_set_id
       source_instagram_media_id video_id =
     (case create_ad_creative nt log access_token ad_account_id facebook_page_id ig_account_id
             source_instagram_media_id (if opt_truthy ad_code then ad_code else None)
             (the cta_type) (the link) (if opt_truthy app_link then app_link else None)
             (if opt_truthy product_set_id then product_set_id else None) of
        (Inl e, log') \<Rightarrow> (Raised e video_id JNull JNull, log')
      | (Inr (creative_id, creative_error), log') \<Rightarrow>
          if \<not> truthy creative_id
            then (Appended (output_rows @
                    [set_result output_row ''failed''
                       (str_or creative_error ''Creative creation failed'')
                       (py_or video_id (JStr [])) (JStr []) (JStr [])]),
                  log')
          else publish_stage nt log' access_token ad_account_id output_rows output_row
                 (the ad_name) (the ad_set_id) video_id creative_id)"

text \<open>Lines 680-695: video upload.\<close>

definition upload_stage ::
  "net \<Rightarrow> request list \<Rightarrow> string \<Rightarrow> string \<Rightarrow> string \<Rightarrow> string \<Rightarrow> out_row list \<Rightarrow> out_row
     \<Rightarrow> cell \<Rightarrow> cell \<Rightarrow> cell \<Rightarrow> cell \<Rightarrow> cell \<Rightarrow> cell \<Rightarrow> cell \<Rightarrow> jval
     \<Rightarrow> try_result \<times> request list" where
  "upload_stage nt log access_token ig_account_id ad_account_id facebook_page_id output_rows
       output_row ad_code cta_type link app_link ad_name ad_set_id product_set_id
       source_instagram_media_id =
     (case upload_instagram_video nt log access_token ad_account_id source_instagram_media_id
             (if opt_truthy ad_code then ad_code else None) of
        (Inl e, log') \<Rightarrow> (Raised e JNull JNull JNull, log')
      | (Inr (video_id, video_error), log') \<Rightarrow>
          if \<not> truthy video_id
            then (Appended (output_rows @
                    [set_result output_row ''failed'' (str_or video_error ''Video upload failed'')
                       (JStr []) (JStr []) (JStr [])]),
                  log')
          else creative_stage nt log' access_token ig_account_id ad_account_id facebook_page_id
                 output_rows output_row ad_code cta_type link app_link ad_name ad_set_id
                 product_set_id source_instagram_media_id video_id)"

text \<open>
  Lines 640-656: the \<open>if\<close>/\<open>elif\<close> chain that sets \<open>eligibility_error\<close>. It raises when
  \<open>eligibility\<close> is not a \<open>dict\<close>, or when the errors cannot be counted or joined.
\<close>

definition check_eligibility :: "(jval \<Rightarrow> string) \<Rightarrow> cell \<Rightarrow> jval \<Rightarrow> exn + string option" where
  "check_eligibility repr ad_code eligibility =
     (if \<not> truthy eligibility then Inr (Some ''Failed to fetch media eligibility'')
      else case py_get eligibility ''error'' JNull of
        Inl e \<Rightarrow> Inl e
      | Inr err \<Rightarrow>
          if truthy err then Inr (Some (''API Error: '' @ py_str repr err))
          else case py_get eligibility ''has_permission_for_partnership_ad'' JNull of
            Inl e \<Rightarrow> Inl e
          | Inr perm \<Rightarrow>
              if \<not> opt_truthy ad_code \<and> \<not> truthy perm
                then Inr (Some ''Media does not have permission for partnership ads'')
              else case py_get eligibility ''eligibility_errors'' JNull of
                Inl e \<Rightarrow> Inl e
              | Inr errs \<Rightarrow>
                  if \<not> truthy errs then Inr None
                  else case py_get eligibility ''eligibility_errors'' (JArr []) of
                    Inl e \<Rightarrow> Inl e
                  | Inr errors \<Rightarrow>
                      (case py_len errors of
                         Inl e \<Rightarrow> Inl e
                       | Inr n \<Rightarrow>
                           if n > 0
                             then (case py_join '', '' errors of
                                     Inl e \<Rightarrow> Inl e
                                   | Inr s \<Rightarrow> Inr (Some (''Eligibility errors: '' @ s)))
                           else Inr None))"

text \<open>Lines 640-678: the eligibility verdict and the media id.\<close>

definition media_stage ::
  "(jval \<Rightarrow> string) \<Rightarrow> net \<Rightarrow> request list \<Rightarrow> string \<Rightarrow> string \<Rightarrow> string \<Rightarrow> string
     \<Rightarrow> out_row list \<Rightarrow> out_row \<Rightarrow> cell \<Rightarrow> cell \<Rightarrow> cell \<Rightarrow> cell \<Rightarrow> cell \<Rightarrow> cell \<Rightarrow> cell \<Rightarrow> jval
     \<Rightarrow> try_result \<times> request list" where
  "media_stage repr nt log access_token ig_account_id ad_account_id facebook_page_id output_rows
       output_row ad_code cta_type link app_link ad_name ad_set_id product_set_id eligibility =
     (case check_eligibility repr ad_code eligibility of
        Inl e \<Rightarrow> (Raised e JNull JNull JNull, log)
      | Inr eligibility_error \<Rightarrow>
          if opt_truthy eligibility_error
            then (Appended (output_rows @
                    [set_result output_row ''failed'' (the eligibility_error)
                       (JStr []) (JStr []) (JStr [])]),
                  log)
          else case py_get eligibility ''id'' JNull of
            Inl e \<Rightarrow> (Raised e JNull JNull JNull, log)
          | Inr source_instagram_media_id \<Rightarrow>
              if \<not> truthy source_instagram_media_id
                then (Appended (output_rows @
                        [set_result output_row ''failed''
                           ''Media ID not found in eligibility response''
                           (JStr []) (JStr []) (JStr [])]),
                      log)
              else upload_stage nt log access_token ig_account_id ad_account_id facebook_page_id
                     output_rows output_row ad_code cta_type link app_link ad_name ad_set_id
                     product_set_id source_instagram_media_id)"

text \<open>Lines 611-638 and on: the whole \<open>try\<close> block.\<close>

definition row_try ::
  "(jval \<Rightarrow> string) \<Rightarrow> net \<Rightarrow> request list \<Rightarrow> string \<Rightarrow> string \<Rightarrow> string \<Rightarrow> string
     \<Rightarrow> out_row list \<Rightarrow> out_row \<Rightarrow> cell \<Rightarrow> cell \<Rightarrow> cell \<Rightarrow> cell \<Rightarrow> cell \<Rightarrow> cell \<Rightarrow> cell \<Rightarrow> cell
     \<Rightarrow> try_result \<times> request list" where
  "row_try repr nt log access_token ig_account_id ad_account_id facebook_page_id output_rows
       output_row permalink ad_code cta_type link app_link ad_name ad_set_id product_set_id =
     (if opt_truthy ad_code
        then (case fetch_branded_content_advertisable_medias nt log access_token ig_account_id
                     ad_code None of
                (Inl e, log') \<Rightarrow> (Raised e JNull JNull JNull, log')
              | (Inr eligibility, log') \<Rightarrow>
                  media_stage repr nt log' access_token ig_account_id ad_account_id
                    facebook_page_id output_rows output_row ad_code cta_type link app_link
                    ad_name ad_set_id product_set_id eligibility)
      else if opt_truthy permalink
        then (case extract_instagram_shortcode (the permalink) of
                Inl (ValueError m) \<Rightarrow>
                  (Appended (output_rows @
                     [set_result output_row ''failed'' m (JStr []) (JStr []) (JStr [])]),
                   log)
              | Inl e \<Rightarrow> (Raised e JNull JNull JNull, log)
              | Inr shortcode \<Rightarrow>
                  (case fetch_branded_content_advertisable_medias nt log access_token
                          ig_account_id None (Some [shortcode]) of
                     (Inl e, log') \<Rightarrow> (Raised e JNull JNull JNull, log')
                   | (Inr eligibility, log') \<Rightarrow>
                       media_stage repr nt log' access_token ig_account_id ad_account_id
                         facebook_page_id output_rows output_row ad_code cta_type link app_link
                         ad_name ad_set_id product_set_id eligibility))
      else media_stage repr nt log access_token ig_account_id ad_account_id facebook_page_id
             output_rows output_row ad_code cta_type link app_link ad_name ad_set_id
             product_set_id JNull)"

text \<open>
  Lines 741-749: the handler \<open>except Exception\<close> of the row, applied to what the \<open>try\<close> block
  did. A row that the block appended is left as it is.
\<close>

definition handle_raised ::
  "out_row list \<Rightarrow> out_row \<Rightarrow> try_result \<times> request list \<Rightarrow> out_row list \<times> request list" where
  "handle_raised output_rows output_row res =
     (case res of
        (Raised e video_id creative_id published_ad_id, log') \<Rightarrow>
          (output_rows @
             [set_result output_row ''failed'' (''Unexpected error: '' @ str_exn e)
                (py_or video_id (JStr [])) (py_or creative_id (JStr []))
                (py_or published_ad_id (JStr []))],
           log')
      | (Appended output_rows', log') \<Rightarrow> (output_rows', log'))"

text \<open>Lines 559-749: the body of the loop over the rows, from \<open>row.copy()\<close> to the handler.\<close>

definition process_row ::
  "(jval \<Rightarrow> string) \<Rightarrow> net \<Rightarrow> request list \<Rightarrow> string \<Rightarrow> string \<Rightarrow> string \<Rightarrow> string
     \<Rightarrow> out_row list \<Rightarrow> csv_row \<Rightarrow> out_row list \<times> request list" where
  "process_row repr nt log access_token ig_account_id ad_account_id facebook_page_id
       output_rows row =
     (let output_row = row_copy row;
          permalink = row_get row ''permalink'' (Some []);
          ad_code = row_get row ''ad_code'' (Some []);
          cta_type = row_get row ''cta_type'' None;
          link = row_get row ''link'' None;
          app_link = row_get row ''app_link'' (Some []);
          ad_name = row_get row ''ad_name'' None;
          ad_set_id = row_get row ''ad_set_id'' None;
          product_set_id = row_get row ''product_set_id'' (Some []);
          required_fields = [(''cta_type'', cta_type), (''link'', link),
                             (''ad_name'', ad_name), (''ad_set_id'', ad_set_id)];
          missing_fields = map fst (filter (\<lambda>(k, v). \<not> opt_truthy v) required_fields)
      in if missing_fields \<noteq> []
           then (output_rows @
                   [set_result output_row ''failed''
                      (''Missing required fields: '' @ join '', '' missing_fields)
                      (JStr []) (JStr []) (JStr [])],
                 log)
         else if \<not> opt_truthy permalink \<and> \<not> opt_truthy ad_code
           then (output_rows @
                   [set_result output_row ''failed''
                      ''Either permalink or ad_code must be provided''
                      (JStr []) (JStr []) (JStr [])],
                 log)
         else handle_raised output_rows output_row
                (row_try repr nt log access_token ig_account_id ad_account_id facebook_page_id
                   output_rows output_row permalink ad_code cta_type link app_link ad_name
                   ad_set_id product_set_id))"


subsection \<open>Reading the rows and writing the records (lines 546-555 and 751-755)\<close>








section \<open>Notions used to state the properties of the pipeline\<close>

definition result_keys :: "string set" where
  "result_keys = {''status'', ''error'', ''video_id'', ''creative_id'', ''published_ad_id''}"

text \<open>
  A record reflects the furthest stage reached, where \<open>n\<close> is the number of remote calls
  made for its row (eligibility, upload, creative, ad, in this order): a success has all
  three ids and took all four calls; a failure has a message and no ad id, and it has the
  video id exactly when the creative call was made, the creative id exactly when the ad
  call was made. An id that is missing is the empty string; one that is present is a
  non-empty value.
\<close>

definition reflects_stage :: "nat \<Rightarrow> out_row \<Rightarrow> bool" where
  "reflects_stage n r \<longleftrightarrow>
     (\<exists>st err v c p.
        entry r ''status'' = Some (JStr st) \<and> entry r ''error'' = Some (JStr err) \<and>
        entry r ''video_id'' = Some v \<and> entry r ''creative_id'' = Some c \<and>
        entry r ''published_ad_id'' = Some p \<and>
        (st = ''success'' \<and> err = [] \<and> truthy v \<and> truthy c \<and> truthy p \<and> n = 4
         \<or> st = ''failed'' \<and> err \<noteq> [] \<and> p = JStr [] \<and>
            (v = JStr [] \<and> c = JStr [] \<and> n \<le> 2
             \<or> truthy v \<and> c = JStr [] \<and> n = 3
             \<or> truthy v \<and> truthy c \<and> n = 4)))"

subsection \<open>Fixtures: scripted responses and sample rows\<close>

text \<open>The remote side answers the \<open>i\<close>-th call with the \<open>i\<close>-th entry of a script.\<close>

definition scripted :: "(exn + response) list \<Rightarrow> net" where
  "scripted answers log req =
     (if length log < length answers then answers ! length log
      else Inl (RequestException ''no answer scripted''))"

definition answer :: "int \<Rightarrow> string \<Rightarrow> dict \<Rightarrow> exn + response" where
  "answer code txt body = Inr \<lparr>status_code = code, resp_text = txt, json = Inr body\<rparr>"

definition eligible_media :: jval where
  "eligible_media = JObj [(''id'', JStr ''media_123''),
                          (''has_permission_for_partnership_ad'', JBool True),
                          (''eligibility_errors'', JArr [])]"

definition ineligible_media :: jval where
  "ineligible_media = JObj [(''id'', JStr ''media_123''),
                            (''has_permission_for_partnership_ad'', JBool False),
                            (''eligibility_errors'', JArr [JStr ''ERROR_1'', JStr ''ERROR_2''])]"

definition sample_row :: "string \<Rightarrow> string \<Rightarrow> string \<Rightarrow> csv_row" where
  "sample_row permalink ad_code ad_name =
     \<lparr>items = [(''permalink'', Some permalink), (''ad_code'', Some ad_code),
               (''cta_type'', Some ''LEARN_MORE''), (''link'', Some ''https://app.link/install''),
               (''app_link'', Some []), (''ad_name'', Some ad_name),
               (''ad_set_id'', Some ''adset_123''), (''product_set_id'', Some [])],
      rest = None\<rparr>"


definition all_ok_script :: "(exn + response) list" where
  "all_ok_script =
     [answer 200 [] [(''data'', JArr [eligible_media])],
      answer 200 [] [(''id'', JStr ''video_123'')],
      answer 200 [] [(''id'', JStr ''creative_123'')],
      answer 200 [] [(''id'', JStr ''ad_123'')]]"

definition ineligible_script :: "(exn + response) list" where
  "ineligible_script = [answer 200 [] [(''data'', JArr [ineligible_media])]]"

text \<open>
  One pass of the loop body is done: exactly one record \<open>r\<close> was appended, the log grew by
  the calls \<open>reqs\<close> of this row, \<open>r\<close> reflects the stage that \<open>k\<close> earlier calls plus \<open>reqs\<close>
  reached, and outside the five result keys \<open>r\<close> is the row it was copied from, the
  cells under the key \<open>None\<close> included.
\<close>

definition row_done ::
  "out_row list \<Rightarrow> out_row \<Rightarrow> request list \<Rightarrow> nat \<Rightarrow> out_row list \<times> request list \<Rightarrow> bool" where
  "row_done output_rows output_row log k res \<longleftrightarrow>
     (\<exists>r reqs. res = (output_rows @ [r], log @ reqs) \<and>
        reflects_stage (k + length reqs) r \<and>
        (\<forall>key. key \<notin> result_keys \<longrightarrow> entry r key = entry output_row key) \<and>
        rest r = rest output_row)"

definition missing_fields_row :: csv_row where
  "missing_fields_row =
     \<lparr>items = [(''media_id'', Some ''media_123''),
               (''permalink'', Some ''https://instagram.com/p/abc123''),
               (''ad_set_id'', Some []), (''cta_type'', Some []),
               (''ad_name'', Some ''Test Ad 1'')],
      rest = None\<rparr>"


text \<open>The record of a row that failed before any id was obtained.\<close>

definition failed_record :: "csv_row \<Rightarrow> string \<Rightarrow> out_row" where
  "failed_record row msg =
     set_result (row_copy row) ''failed'' msg (JStr []) (JStr []) (JStr [])"

subsection \<open>The stages of a row\<close>

text \<open>The row passes the field validation of lines 573-601.\<close>

definition valid_fields :: "csv_row \<Rightarrow> bool" where
  "valid_fields row \<longleftrightarrow>
     opt_truthy (row_get row ''cta_type'' None) \<and> opt_truthy (row_get row ''link'' None) \<and>
     opt_truthy (row_get row ''ad_name'' None) \<and> opt_truthy (row_get row ''ad_set_id'' None) \<and>
     (opt_truthy (row_get row ''permalink'' (Some [])) \<or>
      opt_truthy (row_get row ''ad_code'' (Some [])))"

text \<open>
  The eligibility lookup of a row that passed validation (lines 612-636): by the ad code
  when the row has one, else by the shortcode of its permalink; none is made (\<open>None\<close>)
  when the permalink is a stories link.
\<close>

definition eligibility_lookup ::
  "net \<Rightarrow> request list \<Rightarrow> string \<Rightarrow> string \<Rightarrow> csv_row \<Rightarrow> ((exn + jval) \<times> request list) option" where
  "eligibility_lookup nt log access_token ig_account_id row =
     (if opt_truthy (row_get row ''ad_code'' (Some []))
        then Some (fetch_branded_content_advertisable_medias nt log access_token ig_account_id
                     (row_get row ''ad_code'' (Some [])) None)
      else case extract_instagram_shortcode (the (row_get row ''permalink'' (Some []))) of
             Inl e \<Rightarrow> None
           | Inr shortcode \<Rightarrow>
               Some (fetch_branded_content_advertisable_medias nt log access_token ig_account_id
                       None (Some [shortcode])))"





text \<open>The record of a row: the copy of the row with the five result columns set.\<close>

definition result_record :: "csv_row \<Rightarrow> string \<Rightarrow> string \<Rightarrow> jval \<Rightarrow> jval \<Rightarrow> jval \<Rightarrow> out_row" where
  "result_record row st err video_id creative_id published_ad_id =
     set_result (row_copy row) st err video_id creative_id published_ad_id"

subsection \<open>The batch\<close>



subsection \<open>Fixtures: input files\<close>





text \<open>Error-keyed and oddly coded eligibility records.\<close>

definition empty_error_media :: jval where
  "empty_error_media = JObj [(''error'', JStr []), (''id'', JStr ''media_123'')]"

definition empty_error_script :: "(exn + response) list" where
  "empty_error_script =
     [answer 200 [] [(''data'', JArr [empty_error_media])],
      answer 200 [] [(''id'', JStr ''video_123'')],
      answer 200 [] [(''id'', JStr ''creative_123'')],
      answer 200 [] [(''id'', JStr ''ad_123'')]]"

definition numeric_codes_media :: jval where
  "numeric_codes_media = JObj [(''id'', JStr ''media_123''), (''eligibility_errors'', JArr [JNum 7])]"

definition numeric_codes_script :: "(exn + response) list" where
  "numeric_codes_script = [answer 200 [] [(''data'', JArr [numeric_codes_media])]]"

section \<open>The pagination fetcher (partnership\_ads\_booster.py, lines 130-200)\<close>

text \<open>
  Inside the fetcher every exception ends in the handlers of lines 253-258, which print it
  and exit with status 1. The built-ins below therefore return \<open>None\<close> where Python raises.
\<close>

text \<open>Iterating a value: the items of a list, the characters of a string, the keys of a
  dict; a \<open>TypeError\<close> on the rest.\<close>

fun py_iter :: "jval \<Rightarrow> jval list option" where
  "py_iter (JArr xs) = Some xs"
| "py_iter (JStr s) = Some (map (\<lambda>c. JStr [c]) s)"
| "py_iter (JObj kv) = Some (map JStr (dict_keys kv))"
| "py_iter x = None"

text \<open>
  Line 186, \<open>[m for m in medias if m.get("has_permission_for_partnership_ad", False)]\<close>,
  on the items in order: the first item without a \<open>get\<close> method raises.
\<close>

fun permitted :: "jval list \<Rightarrow> jval list option" where
  "permitted [] = Some []"
| "permitted (m # ms) =
     (case py_get m ''has_permission_for_partnership_ad'' (JBool False) of
        Inl e \<Rightarrow> None
      | Inr v \<Rightarrow>
          (case permitted ms of
             None \<Rightarrow> None
           | Some r \<Rightarrow> Some (if truthy v then m # r else r)))"

text \<open>The items that a page's \<open>data\<close> adds: filtered by line 186, or as \<open>extend\<close> iterates
  them.\<close>

definition admitted :: "bool \<Rightarrow> jval \<Rightarrow> jval list option" where
  "admitted only_with_permission medias =
     (if only_with_permission
        then (case py_iter medias of None \<Rightarrow> None | Some ms \<Rightarrow> permitted ms)
      else py_iter medias)"

text \<open>\<open>xs[:n]\<close>, where a negative \<open>n\<close> counts from the end.\<close>

definition py_slice_to :: "int \<Rightarrow> 'a list \<Rightarrow> 'a list" where
  "py_slice_to n xs = (if 0 \<le> n then take (nat n) xs else take (nat (int (length xs) + n)) xs)"

text \<open>\<open>k in x\<close> for a string \<open>k\<close>, and \<open>x[k]\<close>.\<close>

fun py_has :: "string \<Rightarrow> jval \<Rightarrow> bool option" where
  "py_has k (JObj kv) = Some (k \<in> set (map fst kv))"
| "py_has k (JArr xs) = Some (JStr k \<in> set xs)"
| "py_has k (JStr s) = Some (py_in k s)"
| "py_has k x = None"

fun py_item :: "jval \<Rightarrow> string \<Rightarrow> jval option" where
  "py_item (JObj kv) k = map_of kv k"
| "py_item x k = None"

text \<open>Line 191, \<open>if limit and len(all_medias) >= limit\<close>: a limit of \<open>None\<close> or \<open>0\<close> is no limit.\<close>

definition limit_reached :: "int option \<Rightarrow> 'a list \<Rightarrow> bool" where
  "limit_reached limit all_medias =
     (case limit of None \<Rightarrow> False | Some n \<Rightarrow> n \<noteq> 0 \<and> n \<le> int (length all_medias))"

text \<open>Lines 181-194: what the \<open>data\<close> of a page does to the accumulator.\<close>

datatype data_effect = DataRaises | LimitReached "jval list" | GoesOn "jval list"

definition data_block :: "int option \<Rightarrow> bool \<Rightarrow> dict \<Rightarrow> jval list \<Rightarrow> data_effect" where
  "data_block limit only_with_permission response_data all_medias =
     (case map_of response_data ''data'' of
        None \<Rightarrow> GoesOn all_medias
      | Some medias \<Rightarrow>
          (case admitted only_with_permission medias of
             None \<Rightarrow> DataRaises
           | Some ms \<Rightarrow>
               (let all_medias' = all_medias @ ms
                in if limit_reached limit all_medias'
                     then LimitReached (py_slice_to (the limit) all_medias')
                   else GoesOn all_medias')))"

text \<open>Lines 196-200: the next page, if any.\<close>

datatype paging_effect = PagingRaises | NoNext | Next jval

definition paging_block :: "dict \<Rightarrow> paging_effect" where
  "paging_block response_data =
     (case map_of response_data ''paging'' of
        None \<Rightarrow> NoNext
      | Some paging \<Rightarrow>
          (case py_has ''next'' paging of
             None \<Rightarrow> PagingRaises
           | Some False \<Rightarrow> NoNext
           | Some True \<Rightarrow>
               (case py_item paging ''next'' of None \<Rightarrow> PagingRaises | Some u \<Rightarrow> Next u)))"

text \<open>Lines 173-179: one request for a page; \<open>None\<close> where the program exits (a raised
  exception, a status other than 200, a body that does not decode).\<close>

definition page_request :: "(string \<times> string) list \<Rightarrow> jval \<Rightarrow> (string \<times> param) list \<Rightarrow> request" where
  "page_request hdrs u ps =
     \<lparr>verb = ''GET'', url = u, headers = hdrs, params = Some ps, json_data = None\<rparr>"

definition read_page ::
  "net \<Rightarrow> request list \<Rightarrow> (string \<times> string) list \<Rightarrow> jval \<Rightarrow> (string \<times> param) list \<Rightarrow> dict option"
  where
  "read_page nt log hdrs u ps =
     (case nt log (page_request hdrs u ps) of
        Inl e \<Rightarrow> None
      | Inr response \<Rightarrow>
          if status_code response \<noteq> 200 then None
          else (case json response of Inl e \<Rightarrow> None | Inr response_data \<Rightarrow> Some response_data))"

text \<open>
  The loop \<open>while True\<close> of lines 172-200, with fuel: the remote side may offer a next page
  for ever, and then the loop does not return (\<open>None\<close>). \<open>Exit1\<close> is \<open>sys.exit(1)\<close>;
  \<open>Fetched\<close> carries \<open>all_medias\<close> as the loop leaves it.
\<close>

datatype fetch_outcome = Exit1 | Fetched "jval list"

fun fetch_loop ::
  "nat \<Rightarrow> net \<Rightarrow> (string \<times> string) list \<Rightarrow> int option \<Rightarrow> bool \<Rightarrow> jval \<Rightarrow> (string \<times> param) list
     \<Rightarrow> jval list \<Rightarrow> request list \<Rightarrow> (fetch_outcome \<times> request list) option" where
  "fetch_loop 0 nt hdrs limit only_with_permission u ps all_medias log = None"
| "fetch_loop (Suc fuel) nt hdrs limit only_with_permission u ps all_medias log =
     (case read_page nt log hdrs u ps of
        None \<Rightarrow> Some (Exit1, log @ [page_request hdrs u ps])
      | Some response_data \<Rightarrow>
          (case data_block limit only_with_permission response_data all_medias of
             DataRaises \<Rightarrow> Some (Exit1, log @ [page_request hdrs u ps])
           | LimitReached ms \<Rightarrow> Some (Fetched ms, log @ [page_request hdrs u ps])
           | GoesOn ms \<Rightarrow>
               (case paging_block response_data of
                  PagingRaises \<Rightarrow> Some (Exit1, log @ [page_request hdrs u ps])
                | NoNext \<Rightarrow> Some (Fetched ms, log @ [page_request hdrs u ps])
                | Next u' \<Rightarrow>
                    fetch_loop fuel nt hdrs limit only_with_permission u' [] ms
                      (log @ [page_request hdrs u ps]))))"

text \<open>Lines 156-167: the first URL and the first parameters.\<close>

definition first_url :: "string \<Rightarrow> jval" where
  "first_url ig_account_id =
     JStr (''https://graph.facebook.com/v22.0/'' @ ig_account_id
           @ ''/branded_content_advertisable_medias'')"

definition first_params :: "string option \<Rightarrow> (string \<times> param) list" where
  "first_params creator_username =
     [(''fields'', PVal (JStr fields_wanted)), (''limit'', PVal (JNum 25))]
     @ (if opt_truthy creator_username
          then [(''creator_username'', PVal (JStr (the creator_username)))]
        else [])"

definition fetch_all_advertisable_medias ::
  "nat \<Rightarrow> net \<Rightarrow> request list \<Rightarrow> string \<Rightarrow> string \<Rightarrow> string option \<Rightarrow> int option \<Rightarrow> bool
     \<Rightarrow> (fetch_outcome \<times> request list) option" where
  "fetch_all_advertisable_medias fuel nt log access_token ig_account_id creator_username limit
       only_with_permission =
     fetch_loop fuel nt (bearer_headers access_token) limit only_with_permission
       (first_url ig_account_id) (first_params creator_username) [] log"

subsection \<open>Notions used to state the properties of the fetcher\<close>

text \<open>
  The items that the first \<open>k\<close> pages admit, page by page, as the loop meets them when no
  limit stops it: each page is requested with the log as it then is, and the list ends
  with the page after which nothing follows, or before the page that cannot be read.
\<close>

fun pages ::
  "nat \<Rightarrow> net \<Rightarrow> (string \<times> string) list \<Rightarrow> bool \<Rightarrow> jval \<Rightarrow> (string \<times> param) list
     \<Rightarrow> request list \<Rightarrow> jval list list" where
  "pages 0 nt hdrs only_with_permission u ps log = []"
| "pages (Suc k) nt hdrs only_with_permission u ps log =
     (case read_page nt log hdrs u ps of
        None \<Rightarrow> []
      | Some response_data \<Rightarrow>
          (case data_block None only_with_permission response_data [] of
             GoesOn ms \<Rightarrow>
               (case paging_block response_data of
                  Next u' \<Rightarrow>
                    ms # pages k nt hdrs only_with_permission u' [] (log @ [page_request hdrs u ps])
                | _ \<Rightarrow> [ms])
           | _ \<Rightarrow> []))"

subsection \<open>Fixtures: pages of three media\<close>

definition media :: "string \<Rightarrow> jval" where
  "media i = JObj [(''id'', JStr (''media_'' @ i)), (''owner_id'', JStr (''owner_'' @ i)),
                   (''has_permission_for_partnership_ad'', JBool True),
                   (''eligibility_errors'', JArr [])]"

definition first_page :: "exn + response" where
  "first_page =
     answer 200 []
       [(''data'', JArr [media ''0'', media ''1'', media ''2'']),
        (''paging'', JObj [(''next'', JStr ''https://graph.facebook.com/v22.0/next_page'')])]"

definition last_page :: "exn + response" where
  "last_page =
     answer 200 []
       [(''data'', JArr [media ''3'', media ''4'', media ''5'']), (''paging'', JObj [])]"

section \<open>Properties of the shortcode extractor\<close>

lemma lit_rest_iff: "lit_rest p s = Some r \<longleftrightarrow> s = p @ r"
  by (induction p s rule: lit_rest.induct) auto

lemma mem_lit: "r \<in> set (lit p s) \<longleftrightarrow> s = p @ r"
proof -
  have "r \<in> set (lit p s) \<longleftrightarrow> lit_rest p s = Some r"
    by (cases "lit_rest p s") (auto simp: lit_def)
  then show ?thesis by (simp add: lit_rest_iff)
qed

lemma py_in_sublist: "py_in sub s \<longleftrightarrow> sublist sub s"
  by (induction s) (auto simp: sublist_Cons_right)

lemma mem_seq: "r \<in> set (seq a b s) \<longleftrightarrow> (\<exists>m. m \<in> set (a s) \<and> r \<in> set (b m))"
  by (auto simp: seq_def)

lemma mem_alt: "r \<in> set (alt a b s) \<longleftrightarrow> r \<in> set (a s) \<or> r \<in> set (b s)"
  by (simp add: alt_def)

lemma mem_opt: "r \<in> set (opt a s) \<longleftrightarrow> r = s \<or> r \<in> set (a s)"
  by (simp add: opt_def)

lemma consumes_lit: "consumes (lit p)"
  by (simp add: consumes_def mem_lit suffix_def)

lemma consumes_seq: "consumes a \<Longrightarrow> consumes b \<Longrightarrow> consumes (seq a b)"
  unfolding consumes_def mem_seq by (meson suffix_order.trans)

lemma consumes_alt: "consumes a \<Longrightarrow> consumes b \<Longrightarrow> consumes (alt a b)"
  unfolding consumes_def mem_alt by blast

lemma consumes_opt: "consumes a \<Longrightarrow> consumes (opt a)"
  unfolding consumes_def mem_opt by blast

lemma consumes_scheme: "consumes scheme"
  unfolding scheme_def by (intro consumes_seq consumes_opt consumes_lit)

lemma kind_iff: "r \<in> set (kind s) \<longleftrightarrow> (\<exists>k\<in>kinds. s = k @ r)"
  unfolding kind_def mem_alt mem_lit kinds_def
  by (simp only: bex_simps insert_iff empty_iff) blast

lemma path_iff: "r \<in> set (path s) \<longleftrightarrow> (\<exists>k\<in>kinds. s = host @ k @ ''/'' @ r)"
proof -
  have "r \<in> set (path s) \<longleftrightarrow> (\<exists>s1. s = host @ s1 \<and> ''/'' @ r \<in> set (kind s1))"
    unfolding path_def mem_seq mem_lit by blast
  also have "\<dots> \<longleftrightarrow> (\<exists>k\<in>kinds. s = host @ k @ ''/'' @ r)"
    unfolding kind_iff by blast
  finally show ?thesis .
qed

lemma url_prefix_path: "url_prefix = seq (opt scheme) (seq (opt (lit ''www.'')) path)"
  by (simp add: url_prefix_def path_def host_def)

lemma url_prefix_sound:
  assumes "r \<in> set (url_prefix s)"
  shows "\<exists>pre. \<exists>k\<in>kinds. s = pre @ host @ k @ ''/'' @ r"
proof -
  from assms obtain m1 m2 where m1: "m1 \<in> set (opt scheme s)"
    and m2: "m2 \<in> set (opt (lit ''www.'') m1)"
    and r: "r \<in> set (path m2)"
    unfolding url_prefix_path mem_seq by blast
  have "suffix m1 s"
    using m1 consumes_opt[OF consumes_scheme] unfolding consumes_def by blast
  moreover have "suffix m2 m1"
    using m2 consumes_opt[OF consumes_lit] unfolding consumes_def by blast
  ultimately have "suffix m2 s" by (rule suffix_order.trans[rotated])
  then obtain pre where s: "s = pre @ m2" by (auto simp: suffix_def)
  from r obtain k where "k \<in> kinds" "m2 = host @ k @ ''/'' @ r"
    unfolding path_iff by blast
  with s show ?thesis by blast
qed

lemma url_prefix_complete:
  assumes "k \<in> kinds"
  shows "r \<in> set (url_prefix (host @ k @ ''/'' @ r))"
proof -
  let ?s = "host @ k @ ''/'' @ r"
  have "r \<in> set (path ?s)"
    unfolding path_iff using assms by blast
  moreover have "?s \<in> set (opt (lit ''www.'') ?s)" "?s \<in> set (opt scheme ?s)"
    unfolding mem_opt by simp_all
  ultimately show ?thesis unfolding url_prefix_path mem_seq by blast
qed

lemma match_here_None_iff:
  "match_here s = None \<longleftrightarrow> (\<forall>r\<in>set (url_prefix s). r = [] \<or> \<not> is_code_char (hd r))"
proof -
  have "match_here s = None \<longleftrightarrow>
          filter (\<lambda>g. g \<noteq> []) (map (takeWhile is_code_char) (url_prefix s)) = []"
    by (simp add: match_here_def split: list.split)
  also have "\<dots> \<longleftrightarrow> (\<forall>r\<in>set (url_prefix s). takeWhile is_code_char r = [])"
    by (simp add: filter_empty_conv)
  finally show ?thesis by (simp add: takeWhile_eq_Nil_iff)
qed

lemma re_search_None_iff:
  "re_search s = None \<longleftrightarrow> (\<forall>t. suffix t s \<longrightarrow> match_here t = None)"
proof (induction s)
  case Nil
  show ?case by simp
next
  case (Cons c cs)
  show ?case
  proof (cases "match_here (c # cs)")
    case None
    with Cons show ?thesis by (auto simp: suffix_Cons)
  next
    case (Some g)
    then show ?thesis by (auto simp: suffix_Cons)
  qed
qed

lemma re_search_has_url: "re_search s \<noteq> None \<longleftrightarrow> has_url s"
proof
  assume "re_search s \<noteq> None"
  then obtain t where t: "suffix t s" "match_here t \<noteq> None"
    unfolding re_search_None_iff by blast
  then obtain r where r: "r \<in> set (url_prefix t)" "r \<noteq> []" "is_code_char (hd r)"
    unfolding match_here_None_iff by blast
  from url_prefix_sound[OF r(1)] obtain pre k where
    k: "k \<in> kinds" and teq: "t = pre @ host @ k @ ''/'' @ r"
    by blast
  from t(1) obtain a where "s = a @ t" by (auto simp: suffix_def)
  with teq have "s = (a @ pre) @ host @ k @ ''/'' @ hd r # tl r"
    using r(2) by simp
  with k r(3) show "has_url s" unfolding has_url_def by blast
next
  assume "has_url s"
  then obtain a k c b where k: "k \<in> kinds" and c: "is_code_char c"
    and s: "s = a @ host @ k @ ''/'' @ c # b"
    unfolding has_url_def by blast
  define t where "t = host @ k @ ''/'' @ c # b"
  have "c # b \<in> set (url_prefix t)" unfolding t_def by (rule url_prefix_complete[OF k])
  with c have m: "match_here t \<noteq> None" unfolding match_here_None_iff by force
  have "s = a @ t" unfolding s t_def by simp
  then have suf: "suffix t s" by (rule suffixI)
  show "re_search s \<noteq> None"
  proof
    assume "re_search s = None"
    then have "match_here t = None" using suf by (simp add: re_search_None_iff)
    with m show False by simp
  qed
qed

lemma has_url_sublist:
  assumes "sublist y x" and "has_url y"
  shows "has_url x"
proof -
  from assms(1) obtain ps ss where x: "x = ps @ y @ ss" unfolding sublist_def by blast
  from assms(2) obtain a k c b where k: "k \<in> kinds" and c: "is_code_char c"
    and y: "y = a @ host @ k @ ''/'' @ c # b"
    unfolding has_url_def by blast
  have xeq: "x = (ps @ a) @ host @ k @ ''/'' @ c # (b @ ss)" unfolding x y by simp
  show ?thesis unfolding has_url_def
    by (rule exI[of _ "ps @ a"], rule exI[of _ k], rule exI[of _ c], rule exI[of _ "b @ ss"])
       (simp only: k c xeq simp_thms)
qed

lemma sublist_py_strip: "sublist (py_strip ch s) s"
proof -
  let ?P = "\<lambda>c. c = ch"
  have "suffix (dropWhile ?P s) s" by (rule suffix_dropWhile)
  moreover have "prefix (py_strip ch s) (dropWhile ?P s)"
  proof -
    have "suffix (dropWhile ?P (rev (dropWhile ?P s))) (rev (dropWhile ?P s))"
      by (rule suffix_dropWhile)
    then show ?thesis unfolding py_strip_def by (simp add: suffix_to_prefix)
  qed
  ultimately show ?thesis
    by (meson prefix_imp_sublist suffix_imp_sublist sublist_order.order.trans)
qed

lemma py_strip_ends:
  assumes "py_strip ch s \<noteq> []"
  shows "hd (py_strip ch s) \<noteq> ch \<and> last (py_strip ch s) \<noteq> ch"
proof -
  let ?P = "\<lambda>c. c = ch"
  let ?u = "dropWhile ?P s"
  let ?v = "dropWhile ?P (rev ?u)"
  have r: "py_strip ch s = rev ?v" by (simp add: py_strip_def)
  with assms have v: "?v \<noteq> []" by simp
  then have "\<not> ?P (hd ?v)" by (rule hd_dropWhile)
  then have l: "last (py_strip ch s) \<noteq> ch" using v unfolding r by (simp add: last_rev)
  have u: "?u \<noteq> []"
  proof
    assume e: "?u = []"
    have "?v = []" by (subst e) simp
    with v show False by simp
  qed
  then have hu: "\<not> ?P (hd ?u)" by (rule hd_dropWhile)
  have "prefix (rev ?v) ?u"
    using suffix_dropWhile[of ?P "rev ?u"] by (simp add: suffix_to_prefix)
  then obtain w where "?u = rev ?v @ w" unfolding prefix_def by blast
  then have "hd ?u = hd (rev ?v)" using v by (metis hd_append2 rev_is_Nil_conv)
  with hu have "hd (py_strip ch s) \<noteq> ch" unfolding r by simp
  with l show ?thesis by simp
qed

lemma py_strip_id:
  assumes "s = [] \<or> (hd s \<noteq> ch \<and> last s \<noteq> ch)"
  shows "py_strip ch s = s"
proof (cases "s = []")
  case True
  then show ?thesis by (simp add: py_strip_def)
next
  case False
  with assms have h: "hd s \<noteq> ch" and l: "last s \<noteq> ch" by simp_all
  from False h have 1: "dropWhile (\<lambda>c. c = ch) s = s" by (cases s) simp_all
  from False l have 2: "dropWhile (\<lambda>c. c = ch) (rev s) = rev s"
    by (cases "rev s") (simp_all add: last_rev[symmetric] hd_rev)
  show ?thesis by (simp add: py_strip_def 1 2)
qed

lemma py_strip_idem: "py_strip ch (py_strip ch s) = py_strip ch s"
  by (rule py_strip_id) (use py_strip_ends in blast)

lemma py_strip_decomp:
  "\<exists>pre post. s = pre @ py_strip ch s @ post \<and> set pre \<subseteq> {ch} \<and> set post \<subseteq> {ch}"
proof -
  let ?P = "\<lambda>c. c = ch"
  let ?u = "dropWhile ?P s"
  have s: "s = takeWhile ?P s @ ?u" by simp
  have u: "rev ?u = takeWhile ?P (rev ?u) @ dropWhile ?P (rev ?u)" by simp
  have "?u = rev (rev ?u)" by simp
  also have "\<dots> = rev (dropWhile ?P (rev ?u)) @ rev (takeWhile ?P (rev ?u))"
    by (subst u) (simp only: rev_append)
  finally have "?u = py_strip ch s @ rev (takeWhile ?P (rev ?u))"
    by (simp add: py_strip_def)
  with s have "s = takeWhile ?P s @ py_strip ch s @ rev (takeWhile ?P (rev ?u))" by simp
  moreover have "set (takeWhile ?P s) \<subseteq> {ch}"
    using set_takeWhileD by fastforce
  moreover have "set (rev (takeWhile ?P (rev ?u))) \<subseteq> {ch}"
    using set_takeWhileD by fastforce
  ultimately show ?thesis by blast
qed

lemmas regex_eval =
  match_here_def url_prefix_def scheme_def kind_def seq_def opt_def alt_def lit_def
  is_code_char_def

text \<open>
  Claim C4, as the code has it. A non-empty input without the stories marker that the
  URL pattern does not match is returned with every leading and every trailing slash
  removed, and nothing else changed: the input is \<open>pre @ r @ post\<close> with \<open>pre\<close> and \<open>post\<close>
  made of slashes only, and the result \<open>r\<close> neither starts nor ends with a slash.
\<close>

theorem extract_bare_strips_both_ends:
  assumes "permalink \<noteq> []"
    and "\<not> py_in ''/stories/'' permalink"
    and "re_search permalink = None"
  shows "\<exists>pre r post.
           extract_instagram_shortcode permalink = Inr r \<and>
           permalink = pre @ r @ post \<and>
           set pre \<subseteq> {CHR ''/''} \<and> set post \<subseteq> {CHR ''/''} \<and>
           (r \<noteq> [] \<longrightarrow> hd r \<noteq> CHR ''/'' \<and> last r \<noteq> CHR ''/'')"
proof -
  have e: "extract_instagram_shortcode permalink = Inr (py_strip CHR ''/'' permalink)"
    using assms by (simp add: extract_instagram_shortcode_def)
  from py_strip_decomp[of permalink "CHR ''/''"] obtain pre post where
    d: "permalink = pre @ py_strip CHR ''/'' permalink @ post"
       "set pre \<subseteq> {CHR ''/''}" "set post \<subseteq> {CHR ''/''}"
    by blast
  have "py_strip CHR ''/'' permalink \<noteq> [] \<longrightarrow>
          hd (py_strip CHR ''/'' permalink) \<noteq> CHR ''/'' \<and>
          last (py_strip CHR ''/'' permalink) \<noteq> CHR ''/''"
    using py_strip_ends by blast
  with e d show ?thesis by blast
qed

theorem extract_bare_strips_both_ends_witness:
  "''//aBc/d//'' \<noteq> [] \<and> \<not> py_in ''/stories/'' ''//aBc/d//'' \<and>
   re_search ''//aBc/d//'' = None \<and>
   extract_instagram_shortcode ''//aBc/d//'' = Inr ''aBc/d''"
proof -
  have h: "''//aBc/d//'' \<noteq> []" "\<not> py_in ''/stories/'' ''//aBc/d//''"
          "re_search ''//aBc/d//'' = None"
    by (simp_all add: regex_eval)
  from extract_bare_strips_both_ends[OF h] obtain pre r post where
    r: "extract_instagram_shortcode ''//aBc/d//'' = Inr r" by blast
  have "extract_instagram_shortcode ''//aBc/d//'' = Inr ''aBc/d''"
    by (simp add: extract_instagram_shortcode_def regex_eval py_strip_def)
  with h show ?thesis by simp
qed

text \<open>
  Claim C4 as stated fails: on \<open>/abc\<close>, which has no trailing slash, the leading slash is
  not preserved.
\<close>

theorem extract_leading_slash_counterexample:
  "''/abc'' \<noteq> [] \<and> \<not> py_in ''/stories/'' ''/abc'' \<and> re_search ''/abc'' = None \<and>
   spec_strip_trailing_slash ''/abc'' = ''/abc'' \<and>
   extract_instagram_shortcode ''/abc'' = Inr ''abc'' \<and>
   extract_instagram_shortcode ''/abc'' \<noteq> Inr (spec_strip_trailing_slash ''/abc'')"
  by (simp add: extract_instagram_shortcode_def regex_eval py_strip_def
        spec_strip_trailing_slash_def)

text \<open>
  Claim C7. The extractor raises the unsupported-stories \<open>ValueError\<close> exactly when the
  input contains \<open>/stories/\<close>, and it returns a value exactly when the input does not.
\<close>

theorem extract_stories_iff:
  "(extract_instagram_shortcode s =
      Inl (ValueError ''Stories boosting is not supported by this script''))
     = (\<exists>a b. s = a @ ''/stories/'' @ b)
   \<and> (\<exists>v. extract_instagram_shortcode s = Inr v) = (\<not> (\<exists>a b. s = a @ ''/stories/'' @ b))"
proof -
  have c: "py_in ''/stories/'' s \<longleftrightarrow> (\<exists>a b. s = a @ ''/stories/'' @ b)"
    unfolding py_in_sublist sublist_def ..
  have n: "s = [] \<Longrightarrow> \<not> py_in ''/stories/'' s" by simp
  show ?thesis
  proof (cases "py_in ''/stories/'' s")
    case True
    with n have "s \<noteq> []" by blast
    with True have "extract_instagram_shortcode s =
        Inl (ValueError ''Stories boosting is not supported by this script'')"
      by (simp add: extract_instagram_shortcode_def)
    with True show ?thesis unfolding c[symmetric] by simp
  next
    case False
    then have "\<exists>v. extract_instagram_shortcode s = Inr v"
      by (cases "re_search s") (simp_all add: extract_instagram_shortcode_def)
    with False show ?thesis unfolding c[symmetric] by auto
  qed
qed

theorem extract_stories_iff_witness:
  "extract_instagram_shortcode ''/stories/12345'' =
     Inl (ValueError ''Stories boosting is not supported by this script'')"
proof -
  have "''/stories/12345'' = [] @ ''/stories/'' @ ''12345''" by simp
  then have "\<exists>a b. ''/stories/12345'' = a @ ''/stories/'' @ b" by blast
  with extract_stories_iff[of "''/stories/12345''"] show ?thesis by blast
qed

text \<open>
  Claim C8. For an input that the URL pattern does not match and that does not contain
  the stories marker, extraction returns a value \<open>y\<close>, and extracting from \<open>y\<close> returns \<open>y\<close>
  again: \<open>extract(extract(x)) == extract(x)\<close>.
\<close>

theorem extract_idempotent_on_bare:
  assumes "re_search x = None" and "\<not> py_in ''/stories/'' x"
  shows "\<exists>y. extract_instagram_shortcode x = Inr y \<and> extract_instagram_shortcode y = Inr y"
proof -
  let ?y = "py_strip CHR ''/'' x"
  have x: "extract_instagram_shortcode x = Inr ?y"
  proof (cases "x = []")
    case True
    then show ?thesis by (simp add: extract_instagram_shortcode_def py_strip_def)
  next
    case False
    with assms show ?thesis
      by (simp only: extract_instagram_shortcode_def if_False option.case)
  qed
  have sub: "sublist ?y x" by (rule sublist_py_strip)
  have st: "\<not> py_in ''/stories/'' ?y"
    using assms(2) sub unfolding py_in_sublist
    by (meson sublist_order.order.trans)
  have "\<not> has_url x" using assms(1) re_search_has_url[of x] by simp
  with sub have "\<not> has_url ?y" using has_url_sublist by blast
  then have re: "re_search ?y = None" using re_search_has_url[of ?y] by simp
  have "extract_instagram_shortcode ?y = Inr ?y"
  proof (cases "?y = []")
    case True
    then show ?thesis by (simp only: extract_instagram_shortcode_def simp_thms if_True)
  next
    case False
    with st re have "extract_instagram_shortcode ?y = Inr (py_strip CHR ''/'' ?y)"
      by (simp only: extract_instagram_shortcode_def if_False option.case)
    then show ?thesis by (simp only: py_strip_idem)
  qed
  with x show ?thesis by blast
qed

theorem extract_idempotent_on_bare_witness:
  "re_search ''hIj901KlM/'' = None \<and> \<not> py_in ''/stories/'' ''hIj901KlM/'' \<and>
   extract_instagram_shortcode ''hIj901KlM/'' = Inr ''hIj901KlM'' \<and>
   extract_instagram_shortcode ''hIj901KlM'' = Inr ''hIj901KlM''"
proof -
  have h: "re_search ''hIj901KlM/'' = None" "\<not> py_in ''/stories/'' ''hIj901KlM/''"
    by (simp_all add: regex_eval)
  have e: "extract_instagram_shortcode ''hIj901KlM/'' = Inr ''hIj901KlM''"
    by (simp add: extract_instagram_shortcode_def regex_eval py_strip_def)
  from extract_idempotent_on_bare[OF h] e
  have "extract_instagram_shortcode ''hIj901KlM'' = Inr ''hIj901KlM''" by auto
  with h e show ?thesis by simp
qed

section \<open>Properties of the HTTP request wrapper\<close>

lemma caught_prefix:
  "caught e = (None, Some ((if is_request_exception e then ''Request error: ''
                            else ''Unexpected error: '') @ str_exn e))"
  by (cases e) simp_all

lemma py_get_dict: "py_get (JObj d) k dflt = Inr (dict_get d k dflt)"
  by simp

text \<open>
  Claim C5, as the code has it. When the call is made, the remote side responds and the
  body decodes: a 200 status returns the decoded body and no error; any other status
  returns no data and the error \<open>API Error {code}: {message}\<close>, with code and message read
  from the body's \<open>error\<close> object where it has them, else the HTTP status and the raw text,
  provided the \<open>error\<close> entry is absent or is an object.
\<close>

theorem api_error_format:
  assumes "build_request access_token endpoint method ps data api_version = Some req"
    and "nt log req = Inr response"
    and "json response = Inr response_data"
  shows "(status_code response = 200 \<longrightarrow>
            make_api_request repr nt log access_token endpoint method ps data api_version
              = ((Some response_data, None), log @ [req]))
       \<and> (status_code response \<noteq> 200 \<longrightarrow>
            (\<forall>e. dict_get response_data ''error'' (JObj []) = JObj e \<longrightarrow>
               make_api_request repr nt log access_token endpoint method ps data api_version
                 = ((None,
                     Some (''API Error ''
                           @ py_str repr (dict_get e ''code'' (JNum (status_code response)))
                           @ '': ''
                           @ py_str repr (dict_get e ''message'' (JStr (resp_text response))))),
                    log @ [req])))
       \<and> (status_code response \<noteq> 200 \<and> map_of response_data ''error'' = None \<longrightarrow>
            make_api_request repr nt log access_token endpoint method ps data api_version
              = ((None,
                  Some (''API Error '' @ str_int (status_code response) @ '': ''
                        @ resp_text response)),
                 log @ [req]))"
proof (intro conjI impI allI)
  assume "status_code response = 200"
  with assms show "make_api_request repr nt log access_token endpoint method ps data api_version
      = ((Some response_data, None), log @ [req])"
    by (simp add: make_api_request_def request_body_def)
next
  fix e
  assume "status_code response \<noteq> 200" "dict_get response_data ''error'' (JObj []) = JObj e"
  with assms show "make_api_request repr nt log access_token endpoint method ps data api_version
      = ((None,
          Some (''API Error ''
                @ py_str repr (dict_get e ''code'' (JNum (status_code response)))
                @ '': ''
                @ py_str repr (dict_get e ''message'' (JStr (resp_text response))))),
         log @ [req])"
    by (simp add: make_api_request_def request_body_def)
next
  assume a: "status_code response \<noteq> 200 \<and> map_of response_data ''error'' = None"
  then have "dict_get response_data ''error'' (JObj []) = JObj []"
    by (simp add: dict_get_def)
  with a assms show "make_api_request repr nt log access_token endpoint method ps data api_version
      = ((None,
          Some (''API Error '' @ str_int (status_code response) @ '': ''
                @ resp_text response)),
         log @ [req])"
    by (simp add: make_api_request_def request_body_def dict_get_def)
qed

lemmas wrapper_eval =
  make_api_request_def request_body_def build_request_def bearer_headers_def py_upper_def
  upper_char_def dict_get_def str_int_def digit_char_def

theorem api_error_format_witness:
  "fst (make_api_request no_repr graph_400_net [] ''test_token'' ''123/test_endpoint'' ''GET''
          None None ''v22.0'')
     = (None, Some ''API Error 100: Invalid parameter'')"
proof -
  let ?req = "\<lparr>verb = ''GET'', url = JStr ''https://graph.facebook.com/v22.0/123/test_endpoint'',
                headers = bearer_headers ''test_token'', params = None, json_data = None\<rparr>"
  let ?resp = "\<lparr>status_code = 400, resp_text = ''Error text'',
                 json = Inr [(''error'', JObj [(''code'', JNum 100),
                                               (''message'', JStr ''Invalid parameter'')])]\<rparr>"
  have b: "build_request ''test_token'' ''123/test_endpoint'' ''GET'' None None ''v22.0'' = Some ?req"
    by (simp add: build_request_def py_upper_def upper_char_def)
  have n: "graph_400_net [] ?req = Inr ?resp" by (simp add: graph_400_net_def)
  have j: "json ?resp = Inr [(''error'', JObj [(''code'', JNum 100),
                                               (''message'', JStr ''Invalid parameter'')])]"
    by simp
  from api_error_format[where nt = graph_400_net and log = "[]" and repr = no_repr, OF b n j]
  show ?thesis by (simp add: dict_get_def str_int_def digit_char_def)
qed

text \<open>
  Claim C5 as stated fails: \<open>response.json()\<close> is called before the status is looked at, so
  a 500 response whose body is not JSON ends in the \<open>except\<close> clause and the error is not of
  the form \<open>API Error {code}: {message}\<close>.
\<close>

theorem api_error_non_json_counterexample:
  "build_request ''test_token'' ''123/test_endpoint'' ''GET'' None None ''v22.0'' \<noteq> None
   \<and> fst (make_api_request no_repr html_500_net [] ''test_token'' ''123/test_endpoint'' ''GET''
            None None ''v22.0'')
       = (None, Some ''Request error: Expecting value: line 1 column 1 (char 0)'')
   \<and> fst (make_api_request no_repr html_500_net [] ''test_token'' ''123/test_endpoint'' ''GET''
            None None ''v22.0'')
       \<noteq> (None, Some (''API Error '' @ str_int 500 @ '': ''
                        @ ''<html>Internal Server Error</html>''))"
  by (simp add: wrapper_eval html_500_net_def)


text \<open>
  Claim C9, as the code has it. The wrapper returns a pair on every path: a method whose
  upper-case form is none of \<open>GET\<close>, \<open>POST\<close>, \<open>DELETE\<close> gives the error
  \<open>Unsupported HTTP method: {method}\<close> without any call; every exception of the \<open>try\<close> block,
  whether raised by the call itself or by \<open>response.json()\<close>, becomes an error string with
  the prefix \<open>Request error: \<close> for a \<open>RequestException\<close> and \<open>Unexpected error: \<close> otherwise.
\<close>

theorem wrapper_maps_exceptions:
  "(py_upper method \<notin> {''GET'', ''POST'', ''DELETE''} \<longrightarrow>
      make_api_request repr nt log access_token endpoint method ps data api_version
        = ((None, Some (''Unsupported HTTP method: '' @ method)), log))
   \<and> (\<forall>e log'.
        request_body repr nt log access_token endpoint method ps data api_version = (Inl e, log')
        \<longrightarrow> make_api_request repr nt log access_token endpoint method ps data api_version
              = ((None, Some ((if is_request_exception e then ''Request error: ''
                               else ''Unexpected error: '') @ str_exn e)), log'))
   \<and> (\<forall>req e.
        build_request access_token endpoint method ps data api_version = Some req \<and>
        nt log req = Inl e
        \<longrightarrow> make_api_request repr nt log access_token endpoint method ps data api_version
              = ((None, Some ((if is_request_exception e then ''Request error: ''
                               else ''Unexpected error: '') @ str_exn e)), log @ [req]))
   \<and> (\<forall>req response e.
        build_request access_token endpoint method ps data api_version = Some req \<and>
        nt log req = Inr response \<and> json response = Inl e
        \<longrightarrow> make_api_request repr nt log access_token endpoint method ps data api_version
              = ((None, Some ((if is_request_exception e then ''Request error: ''
                               else ''Unexpected error: '') @ str_exn e)), log @ [req]))"
proof (intro conjI impI allI)
  assume "py_upper method \<notin> {''GET'', ''POST'', ''DELETE''}"
  then have "build_request access_token endpoint method ps data api_version = None"
    by (simp add: build_request_def)
  then show "make_api_request repr nt log access_token endpoint method ps data api_version
        = ((None, Some (''Unsupported HTTP method: '' @ method)), log)"
    by (simp add: make_api_request_def request_body_def)
next
  fix e log'
  assume "request_body repr nt log access_token endpoint method ps data api_version = (Inl e, log')"
  then show "make_api_request repr nt log access_token endpoint method ps data api_version
              = ((None, Some ((if is_request_exception e then ''Request error: ''
                               else ''Unexpected error: '') @ str_exn e)), log')"
    by (simp add: make_api_request_def caught_prefix)
next
  fix req e
  assume "build_request access_token endpoint method ps data api_version = Some req \<and>
        nt log req = Inl e"
  then have "request_body repr nt log access_token endpoint method ps data api_version
               = (Inl e, log @ [req])"
    by (simp add: request_body_def)
  then show "make_api_request repr nt log access_token endpoint method ps data api_version
              = ((None, Some ((if is_request_exception e then ''Request error: ''
                               else ''Unexpected error: '') @ str_exn e)), log @ [req])"
    by (simp add: make_api_request_def caught_prefix)
next
  fix req response e
  assume "build_request access_token endpoint method ps data api_version = Some req \<and>
        nt log req = Inr response \<and> json response = Inl e"
  then have "request_body repr nt log access_token endpoint method ps data api_version
               = (Inl e, log @ [req])"
    by (simp add: request_body_def)
  then show "make_api_request repr nt log access_token endpoint method ps data api_version
              = ((None, Some ((if is_request_exception e then ''Request error: ''
                               else ''Unexpected error: '') @ str_exn e)), log @ [req])"
    by (simp add: make_api_request_def caught_prefix)
qed

theorem wrapper_maps_exceptions_witness:
  "make_api_request no_repr timeout_net [] ''test_token'' ''me'' ''PATCH'' None None ''v22.0''
     = ((None, Some ''Unsupported HTTP method: PATCH''), [])
   \<and> fst (make_api_request no_repr timeout_net [] ''test_token'' ''me'' ''GET'' None None ''v22.0'')
     = (None, Some ''Request error: Connection timed out'')"
proof -
  let ?req = "\<lparr>verb = ''GET'', url = JStr ''https://graph.facebook.com/v22.0/me'',
                headers = bearer_headers ''test_token'', params = None, json_data = None\<rparr>"
  have u: "py_upper ''PATCH'' \<notin> {''GET'', ''POST'', ''DELETE''}"
    by (simp add: py_upper_def upper_char_def)
  have b: "build_request ''test_token'' ''me'' ''GET'' None None ''v22.0'' = Some ?req"
    by (simp add: build_request_def py_upper_def upper_char_def)
  have n: "timeout_net [] ?req = Inl (RequestException ''Connection timed out'')"
    by (simp add: timeout_net_def)
  have 1: "make_api_request no_repr timeout_net [] ''test_token'' ''me'' ''PATCH'' None None ''v22.0''
     = ((None, Some ''Unsupported HTTP method: PATCH''), [])"
    using u wrapper_maps_exceptions[of "''PATCH''" no_repr timeout_net "[]" "''test_token''" "''me''"
        None None "''v22.0''"]
    by simp
  have 2: "make_api_request no_repr timeout_net [] ''test_token'' ''me'' ''GET'' None None ''v22.0''
     = ((None, Some ''Request error: Connection timed out''), [] @ [?req])"
    using b n wrapper_maps_exceptions[of "''GET''" no_repr timeout_net "[]" "''test_token''" "''me''"
        None None "''v22.0''"]
    by simp
  from 1 2 show ?thesis by simp
qed

text \<open>
  Claim C9 as stated fails for a method string that differs from \<open>GET\<close>, \<open>POST\<close> and \<open>DELETE\<close>
  only by case: the method is upper-cased before it is compared, so \<open>get\<close> issues a GET.
\<close>

theorem wrapper_lowercase_method_counterexample:
  "''get'' \<notin> {''GET'', ''POST'', ''DELETE''}
   \<and> make_api_request no_repr ok_empty_net [] ''test_token'' ''me'' ''get'' None None ''v22.0''
       = ((Some [], None),
          [\<lparr>verb = ''GET'', url = JStr ''https://graph.facebook.com/v22.0/me'',
            headers = [(''Content-Type'', ''application/json''),
                       (''Authorization'', ''Bearer test_token'')],
            params = None, json_data = None\<rparr>])
   \<and> fst (make_api_request no_repr ok_empty_net [] ''test_token'' ''me'' ''get'' None None ''v22.0'')
       \<noteq> (None, Some (''Unsupported HTTP method: '' @ ''get''))"
  by (simp add: wrapper_eval ok_empty_net_def)

section \<open>Properties of the per-row pipeline\<close>

lemma snd_create_ad:
  "snd (create_ad nt log a b n s c) = log @ [ad_request a b n s c]"
  by (simp add: create_ad_def Let_def split: sum.splits option.splits)

lemma snd_upload:
  "snd (upload_instagram_video nt log a b src ac) = log @ [upload_request a b src ac]"
  by (simp add: upload_instagram_video_def Let_def split: sum.splits option.splits)

lemma creative_request_ok:
  assumes "opt_truthy ac \<or> truthy src"
  shows "\<exists>req. creative_request a b pg ig src ac cta lnk al ps = Inr req"
  using assms by (auto simp: creative_request_def Let_def)

lemma create_ad_creative_shape:
  assumes "opt_truthy ac \<or> truthy src"
  shows "\<exists>x req. create_ad_creative nt log a b pg ig src ac cta lnk al ps = (Inr x, log @ [req])"
proof -
  from creative_request_ok[OF assms] obtain req where
    "creative_request a b pg ig src ac cta lnk al ps = Inr req" by blast
  then show ?thesis
    by (simp add: create_ad_creative_def split: sum.splits option.splits)
qed



lemma str_or_nonempty: "dflt \<noteq> [] \<Longrightarrow> str_or e dflt \<noteq> []"
  by (simp add: str_or_def split: option.splits)

lemma py_or_truthy: "truthy v \<Longrightarrow> py_or v d = v"
  by (simp add: py_or_def)

lemma py_or_null: "py_or JNull d = d"
  by (simp add: py_or_def)

lemma map_of_dict_set: "map_of (dict_set k v kv) = (map_of kv)(k \<mapsto> v)"
  by (induction kv) auto

lemma entry_set_result:
  "entry (set_result orow st err v c p) =
     (entry orow)(''status'' \<mapsto> JStr st, ''error'' \<mapsto> JStr err, ''video_id'' \<mapsto> v,
                  ''creative_id'' \<mapsto> c, ''published_ad_id'' \<mapsto> p)"
  by (rule ext) (simp add: entry_def set_result_def map_of_dict_set)

lemma rest_set_result: "rest (set_result orow st err v c p) = rest orow"
  by (simp add: set_result_def)

lemma reflects_set_result:
  "reflects_stage n (set_result orow st err v c p) \<longleftrightarrow>
     (st = ''success'' \<and> err = [] \<and> truthy v \<and> truthy c \<and> truthy p \<and> n = 4
      \<or> st = ''failed'' \<and> err \<noteq> [] \<and> p = JStr [] \<and>
         (v = JStr [] \<and> c = JStr [] \<and> n \<le> 2
          \<or> truthy v \<and> c = JStr [] \<and> n = 3
          \<or> truthy v \<and> truthy c \<and> n = 4))"
  by (simp add: reflects_stage_def entry_set_result)

lemma keeps_set_result:
  "key \<notin> result_keys \<Longrightarrow> entry (set_result orow st err v c p) key = entry orow key"
  by (auto simp: result_keys_def entry_set_result)

lemma row_doneI:
  assumes "res = (outs @ [set_result orow st err v c p], log @ reqs)"
    and "reflects_stage (k + length reqs) (set_result orow st err v c p)"
  shows "row_done outs orow log k res"
  unfolding row_done_def
  by (rule exI[of _ "set_result orow st err v c p"], rule exI[of _ reqs])
     (simp add: assms keeps_set_result rest_set_result)


lemma row_done_shift:
  assumes "row_done outs orow (log @ [req]) (Suc k) res"
  shows "row_done outs orow log k res"
proof -
  from assms obtain r reqs where
    r: "res = (outs @ [r], (log @ [req]) @ reqs)"
       "reflects_stage (Suc k + length reqs) r"
       "(\<forall>key. key \<notin> result_keys \<longrightarrow> entry r key = entry orow key) \<and> rest r = rest orow"
    unfolding row_done_def by blast
  have "res = (outs @ [r], log @ (req # reqs))" using r(1) by simp
  moreover have "reflects_stage (k + length (req # reqs)) r" using r(2) by simp
  ultimately show ?thesis unfolding row_done_def using r(3) by blast
qed

lemma publish_done:
  assumes "truthy v" and "truthy c"
  shows "row_done outs orow log (Suc (Suc (Suc 0)))
           (handle_raised outs orow (publish_stage nt log a b outs orow n s v c))"
proof -
  obtain res where ca: "create_ad nt log a b n s c = (res, log @ [ad_request a b n s c])"
    using snd_create_ad[of nt log a b n s c] by (cases "create_ad nt log a b n s c") simp
  show ?thesis
  proof (cases res)
    case (Inl e)
    have "handle_raised outs orow (publish_stage nt log a b outs orow n s v c)
            = (outs @ [set_result orow ''failed'' (''Unexpected error: '' @ str_exn e) v c (JStr [])],
               log @ [ad_request a b n s c])"
      using ca Inl assms
      by (simp add: publish_stage_def handle_raised_def py_or_truthy py_or_null)
    then show ?thesis by (rule row_doneI) (simp add: reflects_set_result assms)
  next
    case (Inr x)
    obtain p err where x: "x = (p, err)" by (cases x)
    show ?thesis
    proof (cases "truthy p")
      case True
      have "handle_raised outs orow (publish_stage nt log a b outs orow n s v c)
              = (outs @ [set_result orow ''success'' [] v c p], log @ [ad_request a b n s c])"
        using ca Inr x True assms
        by (simp add: publish_stage_def handle_raised_def py_or_truthy)
      then show ?thesis by (rule row_doneI) (simp add: reflects_set_result assms True)
    next
      case False
      have "handle_raised outs orow (publish_stage nt log a b outs orow n s v c)
              = (outs @ [set_result orow ''failed'' (str_or err ''Ad creation failed'') v c (JStr [])],
                 log @ [ad_request a b n s c])"
        using ca Inr x False assms
        by (simp add: publish_stage_def handle_raised_def py_or_truthy)
      then show ?thesis
        by (rule row_doneI) (simp add: reflects_set_result assms str_or_nonempty)
    qed
  qed
qed

lemma creative_done:
  assumes "truthy v" and "truthy src"
  shows "row_done outs orow log (Suc (Suc 0))
           (handle_raised outs orow
              (creative_stage nt log a ig b pg outs orow ac cta lnk al n s ps src v))"
proof -
  from create_ad_creative_shape[of _ src] assms(2) obtain x req where
    cc: "create_ad_creative nt log a b pg ig src (if opt_truthy ac then ac else None)
           (the cta) (the lnk) (if opt_truthy al then al else None)
           (if opt_truthy ps then ps else None) = (Inr x, log @ [req])"
    by blast
  obtain c err where x: "x = (c, err)" by (cases x)
  show ?thesis
  proof (cases "truthy c")
    case True
    have "creative_stage nt log a ig b pg outs orow ac cta lnk al n s ps src v
            = publish_stage nt (log @ [req]) a b outs orow (the n) (the s) v c"
      using cc x True by (simp add: creative_stage_def)
    moreover have "row_done outs orow log (Suc (Suc 0))
        (handle_raised outs orow (publish_stage nt (log @ [req]) a b outs orow (the n) (the s) v c))"
      by (rule row_done_shift) (rule publish_done[OF assms(1) True])
    ultimately show ?thesis by simp
  next
    case False
    have "handle_raised outs orow
            (creative_stage nt log a ig b pg outs orow ac cta lnk al n s ps src v)
            = (outs @ [set_result orow ''failed'' (str_or err ''Creative creation failed'')
                         v (JStr []) (JStr [])],
               log @ [req])"
      using cc x False assms
      by (simp add: creative_stage_def handle_raised_def py_or_truthy)
    then show ?thesis
      by (rule row_doneI) (simp add: reflects_set_result assms str_or_nonempty)
  qed
qed

lemma upload_done:
  assumes "truthy src"
  shows "row_done outs orow log (Suc 0)
           (handle_raised outs orow
              (upload_stage nt log a ig b pg outs orow ac cta lnk al n s ps src))"
proof -
  let ?ac = "if opt_truthy ac then ac else None"
  obtain res where up: "upload_instagram_video nt log a b src ?ac
                          = (res, log @ [upload_request a b src ?ac])"
    using snd_upload[of nt log a b src ?ac]
    by (cases "upload_instagram_video nt log a b src ?ac") simp
  show ?thesis
  proof (cases res)
    case (Inl e)
    have "handle_raised outs orow
            (upload_stage nt log a ig b pg outs orow ac cta lnk al n s ps src)
            = (outs @ [set_result orow ''failed'' (''Unexpected error: '' @ str_exn e)
                         (JStr []) (JStr []) (JStr [])],
               log @ [upload_request a b src ?ac])"
      using up Inl by (simp add: upload_stage_def handle_raised_def py_or_null)
    then show ?thesis by (rule row_doneI) (simp add: reflects_set_result)
  next
    case (Inr x)
    obtain v err where x: "x = (v, err)" by (cases x)
    show ?thesis
    proof (cases "truthy v")
      case True
      have "upload_stage nt log a ig b pg outs orow ac cta lnk al n s ps src
              = creative_stage nt (log @ [upload_request a b src ?ac]) a ig b pg outs orow
                  ac cta lnk al n s ps src v"
        using up Inr x True by (simp add: upload_stage_def)
      moreover have "row_done outs orow log (Suc 0)
          (handle_raised outs orow
             (creative_stage nt (log @ [upload_request a b src ?ac]) a ig b pg outs orow
                ac cta lnk al n s ps src v))"
        by (rule row_done_shift[where req = "upload_request a b src ?ac"])
           (rule creative_done[OF True assms])
      ultimately show ?thesis by simp
    next
      case False
      have "handle_raised outs orow
              (upload_stage nt log a ig b pg outs orow ac cta lnk al n s ps src)
              = (outs @ [set_result orow ''failed'' (str_or err ''Video upload failed'')
                           (JStr []) (JStr []) (JStr [])],
                 log @ [upload_request a b src ?ac])"
        using up Inr x False by (simp add: upload_stage_def handle_raised_def)
      then show ?thesis
        by (rule row_doneI) (simp add: reflects_set_result str_or_nonempty)
    qed
  qed
qed


lemma row_doneI0:
  assumes "res = (outs @ [set_result orow st err v c p], log)"
    and "reflects_stage k (set_result orow st err v c p)"
  shows "row_done outs orow log k res"
  using row_doneI[of res outs orow st err v c p log "[]" k] assms by simp

lemma opt_truthy_the: "opt_truthy e \<Longrightarrow> the e \<noteq> []"
  by (cases e) (simp_all add: opt_truthy_def)

lemma media_done:
  "row_done outs orow log (Suc 0)
     (handle_raised outs orow
        (media_stage repr nt log a ig b pg outs orow ac cta lnk al n s ps elig))"
proof (cases "check_eligibility repr ac elig")
  case (Inl e)
  have "handle_raised outs orow
          (media_stage repr nt log a ig b pg outs orow ac cta lnk al n s ps elig)
          = (outs @ [set_result orow ''failed'' (''Unexpected error: '' @ str_exn e)
                       (JStr []) (JStr []) (JStr [])], log)"
    using Inl by (simp add: media_stage_def handle_raised_def py_or_null)
  then show ?thesis by (rule row_doneI0) (simp add: reflects_set_result)
next
  case (Inr ee)
  show ?thesis
  proof (cases "opt_truthy ee")
    case True
    have "handle_raised outs orow
            (media_stage repr nt log a ig b pg outs orow ac cta lnk al n s ps elig)
            = (outs @ [set_result orow ''failed'' (the ee) (JStr []) (JStr []) (JStr [])], log)"
      using Inr True by (simp add: media_stage_def handle_raised_def)
    then show ?thesis
      by (rule row_doneI0) (simp add: reflects_set_result opt_truthy_the[OF True])
  next
    case False
    show ?thesis
    proof (cases "py_get elig ''id'' JNull")
      case (Inl e)
      have "handle_raised outs orow
              (media_stage repr nt log a ig b pg outs orow ac cta lnk al n s ps elig)
              = (outs @ [set_result orow ''failed'' (''Unexpected error: '' @ str_exn e)
                           (JStr []) (JStr []) (JStr [])], log)"
        using \<open>check_eligibility repr ac elig = Inr ee\<close> False Inl
        by (simp add: media_stage_def handle_raised_def py_or_null)
      then show ?thesis by (rule row_doneI0) (simp add: reflects_set_result)
    next
      case (Inr src)
      show ?thesis
      proof (cases "truthy src")
        case True
        have "media_stage repr nt log a ig b pg outs orow ac cta lnk al n s ps elig
                = upload_stage nt log a ig b pg outs orow ac cta lnk al n s ps src"
          using \<open>check_eligibility repr ac elig = Inr ee\<close> False Inr True
          by (simp add: media_stage_def)
        then show ?thesis using upload_done[OF True] by simp
      next
        case nt: False
        have "handle_raised outs orow
                (media_stage repr nt log a ig b pg outs orow ac cta lnk al n s ps elig)
                = (outs @ [set_result orow ''failed'' ''Media ID not found in eligibility response''
                             (JStr []) (JStr []) (JStr [])], log)"
          using \<open>check_eligibility repr ac elig = Inr ee\<close> False Inr nt
          by (simp add: media_stage_def handle_raised_def)
        then show ?thesis by (rule row_doneI0) (simp add: reflects_set_result)
      qed
    qed
  qed
qed


lemma extract_Inl:
  "extract_instagram_shortcode s = Inl e \<Longrightarrow>
     e = ValueError ''Stories boosting is not supported by this script''"
  by (simp add: extract_instagram_shortcode_def split: if_splits option.splits)




subsection \<open>The pipeline, stage by stage\<close>

lemma process_row_missing:
  assumes "\<not> (opt_truthy (row_get row ''cta_type'' None) \<and> opt_truthy (row_get row ''link'' None) \<and>
              opt_truthy (row_get row ''ad_name'' None) \<and> opt_truthy (row_get row ''ad_set_id'' None))"
  shows "process_row repr nt log a ig b pg outs row
         = (outs @ [set_result (row_copy row) ''failed''
                      (''Missing required fields: '' @ join '', ''
                         (map fst (filter (\<lambda>(k, v). \<not> opt_truthy v)
                            [(''cta_type'', row_get row ''cta_type'' None),
                             (''link'', row_get row ''link'' None),
                             (''ad_name'', row_get row ''ad_name'' None),
                             (''ad_set_id'', row_get row ''ad_set_id'' None)])))
                      (JStr []) (JStr []) (JStr [])], log)"
proof -
  let ?req = "[(''cta_type'', row_get row ''cta_type'' None), (''link'', row_get row ''link'' None),
               (''ad_name'', row_get row ''ad_name'' None),
               (''ad_set_id'', row_get row ''ad_set_id'' None)]"
  let ?missing = "map fst (filter (\<lambda>(k, v). \<not> opt_truthy v) ?req)"
  from assms have m: "?missing \<noteq> []" by auto
  show ?thesis
    using m unfolding process_row_def Let_def by (simp only: if_True if_False simp_thms)
qed

lemma process_row_no_reference:
  assumes "opt_truthy (row_get row ''cta_type'' None)" and "opt_truthy (row_get row ''link'' None)"
    and "opt_truthy (row_get row ''ad_name'' None)" and "opt_truthy (row_get row ''ad_set_id'' None)"
    and "\<not> opt_truthy (row_get row ''permalink'' (Some []))"
    and "\<not> opt_truthy (row_get row ''ad_code'' (Some []))"
  shows "process_row repr nt log a ig b pg outs row
         = (outs @ [set_result (row_copy row) ''failed''
                      ''Either permalink or ad_code must be provided''
                      (JStr []) (JStr []) (JStr [])], log)"
  using assms by (simp add: process_row_def Let_def)

lemma process_row_valid:
  assumes "valid_fields row"
  shows "process_row repr nt log a ig b pg outs row
         = handle_raised outs (row_copy row)
             (row_try repr nt log a ig b pg outs (row_copy row)
                (row_get row ''permalink'' (Some [])) (row_get row ''ad_code'' (Some []))
                (row_get row ''cta_type'' None) (row_get row ''link'' None)
                (row_get row ''app_link'' (Some [])) (row_get row ''ad_name'' None)
                (row_get row ''ad_set_id'' None) (row_get row ''product_set_id'' (Some [])))"
  using assms unfolding valid_fields_def by (auto simp: process_row_def Let_def)

lemma process_row_lookup:
  assumes "valid_fields row"
  shows "process_row repr nt log a ig b pg outs row
         = handle_raised outs (row_copy row)
             (case eligibility_lookup nt log a ig row of
                None \<Rightarrow>
                  (Appended (outs @ [set_result (row_copy row) ''failed''
                                      ''Stories boosting is not supported by this script''
                                      (JStr []) (JStr []) (JStr [])]), log)
              | Some (Inl e, log') \<Rightarrow> (Raised e JNull JNull JNull, log')
              | Some (Inr eligibility, log') \<Rightarrow>
                  media_stage repr nt log' a ig b pg outs (row_copy row)
                    (row_get row ''ad_code'' (Some [])) (row_get row ''cta_type'' None)
                    (row_get row ''link'' None) (row_get row ''app_link'' (Some []))
                    (row_get row ''ad_name'' None) (row_get row ''ad_set_id'' None)
                    (row_get row ''product_set_id'' (Some [])) eligibility)"
proof (cases "opt_truthy (row_get row ''ad_code'' (Some []))")
  case True
  then show ?thesis
    unfolding process_row_valid[OF assms]
    by (simp add: row_try_def eligibility_lookup_def split: prod.splits sum.splits)
next
  case False
  with assms have pl: "opt_truthy (row_get row ''permalink'' (Some []))"
    by (simp add: valid_fields_def)
  show ?thesis
  proof (cases "extract_instagram_shortcode (the (row_get row ''permalink'' (Some [])))")
    case (Inl e)
    from extract_Inl[OF Inl] have
      e: "e = ValueError ''Stories boosting is not supported by this script''" .
    show ?thesis
      unfolding process_row_valid[OF assms]
      using False pl Inl e by (simp add: row_try_def eligibility_lookup_def)
  next
    case (Inr shortcode)
    show ?thesis
      unfolding process_row_valid[OF assms]
      using False pl Inr
      by (simp add: row_try_def eligibility_lookup_def split: prod.splits sum.splits)
  qed
qed



lemma media_faulted:
  assumes "check_eligibility repr ac elig = Inr (Some m)" and "m \<noteq> []"
  shows "handle_raised outs orow
           (media_stage repr nt log a ig b pg outs orow ac cta lnk al n s ps elig)
         = (outs @ [set_result orow ''failed'' m (JStr []) (JStr []) (JStr [])], log)"
  using assms by (simp add: media_stage_def handle_raised_def opt_truthy_def)

lemma media_check_raised:
  assumes "check_eligibility repr ac elig = Inl e"
  shows "handle_raised outs orow
           (media_stage repr nt log a ig b pg outs orow ac cta lnk al n s ps elig)
         = (outs @ [set_result orow ''failed'' (''Unexpected error: '' @ str_exn e)
                      (JStr []) (JStr []) (JStr [])], log)"
  using assms by (simp add: media_stage_def handle_raised_def py_or_null)










lemma fetch_request:
  assumes "eligibility_request a ig ac pl = Inr req"
  shows "snd (fetch_branded_content_advertisable_medias nt log a ig ac pl) = log @ [req]"
  using assms
  by (simp add: fetch_branded_content_advertisable_medias_def split: sum.splits)

lemma lookup_first_call:
  assumes v: "valid_fields row"
    and l: "eligibility_lookup nt log a ig row = Some (res, log @ [req])"
  shows "\<exists>reqs. snd (process_row repr nt log a ig b pg outs row) = log @ req # reqs"
proof (cases res)
  case (Inl e)
  have "snd (process_row repr nt log a ig b pg outs row) = log @ [req]"
    using Inl l by (simp add: process_row_lookup[OF v] handle_raised_def)
  then show ?thesis by simp
next
  case (Inr elig)
  let ?M = "handle_raised outs (row_copy row)
              (media_stage repr nt (log @ [req]) a ig b pg outs (row_copy row)
                 (row_get row ''ad_code'' (Some [])) (row_get row ''cta_type'' None)
                 (row_get row ''link'' None) (row_get row ''app_link'' (Some []))
                 (row_get row ''ad_name'' None) (row_get row ''ad_set_id'' None)
                 (row_get row ''product_set_id'' (Some [])) elig)"
  have p: "process_row repr nt log a ig b pg outs row = ?M"
    using Inr l by (simp add: process_row_lookup[OF v])
  have "row_done outs (row_copy row) (log @ [req]) (Suc 0) ?M" by (rule media_done)
  then obtain r reqs where "?M = (outs @ [r], (log @ [req]) @ reqs)"
    unfolding row_done_def by blast
  with p have "snd (process_row repr nt log a ig b pg outs row) = log @ req # reqs" by simp
  then show ?thesis ..
qed

lemmas booster_eval =
  process_row_def row_try_def media_stage_def upload_stage_def creative_stage_def
  publish_stage_def handle_raised_def check_eligibility_def
  fetch_branded_content_advertisable_medias_def eligibility_request_def first_media_def
  upload_instagram_video_def upload_request_def create_ad_creative_def creative_request_def
  create_ad_def ad_request_def ad_label_def bearer_headers_def fields_wanted_def
  row_get_def entry_def opt_truthy_def str_or_def py_or_def dict_get_def str_int_def
  digit_char_def scripted_def answer_def sample_row_def eligible_media_def
  ineligible_media_def



text \<open>
  Claim C3, as the code has it. A row in which one of \<open>cta_type\<close>, \<open>link\<close>, \<open>ad_name\<close>,
  \<open>ad_set_id\<close> is empty or absent fails with \<open>Missing required fields: ...\<close>, and a row with
  these four present but both \<open>permalink\<close> and \<open>ad_code\<close> empty fails with
  \<open>Either permalink or ad_code must be provided\<close>; in both cases the three ids are empty
  and the log of remote calls is unchanged. A row with the four fields and an \<open>ad_code\<close>,
  whatever its \<open>permalink\<close>, is not rejected: remote calls are made for it, and the first
  is the eligibility lookup by that \<open>ad_code\<close>. A row with the four fields, no \<open>ad_code\<close>
  and a \<open>permalink\<close> that is not a stories link is not rejected either: its first call is
  the eligibility lookup by the shortcode of the \<open>permalink\<close>.
\<close>

theorem validation_fails_without_calls:
  "(\<not> (opt_truthy (row_get row ''cta_type'' None) \<and> opt_truthy (row_get row ''link'' None) \<and>
        opt_truthy (row_get row ''ad_name'' None) \<and> opt_truthy (row_get row ''ad_set_id'' None))
     \<longrightarrow> (\<exists>missing. missing \<noteq> [] \<and>
            set missing \<subseteq> {''cta_type'', ''link'', ''ad_name'', ''ad_set_id''} \<and>
            process_row repr nt log access_token ig_account_id ad_account_id facebook_page_id
              output_rows row
            = (output_rows @
                 [set_result (row_copy row) ''failed''
                    (''Missing required fields: '' @ join '', '' missing)
                    (JStr []) (JStr []) (JStr [])],
               log)))
   \<and> (opt_truthy (row_get row ''cta_type'' None) \<and> opt_truthy (row_get row ''link'' None) \<and>
      opt_truthy (row_get row ''ad_name'' None) \<and> opt_truthy (row_get row ''ad_set_id'' None) \<and>
      \<not> opt_truthy (row_get row ''permalink'' (Some [])) \<and>
      \<not> opt_truthy (row_get row ''ad_code'' (Some []))
     \<longrightarrow> process_row repr nt log access_token ig_account_id ad_account_id facebook_page_id
           output_rows row
         = (output_rows @
              [set_result (row_copy row) ''failed''
                 ''Either permalink or ad_code must be provided''
                 (JStr []) (JStr []) (JStr [])],
            log))
   \<and> (opt_truthy (row_get row ''cta_type'' None) \<and> opt_truthy (row_get row ''link'' None) \<and>
      opt_truthy (row_get row ''ad_name'' None) \<and> opt_truthy (row_get row ''ad_set_id'' None) \<and>
      opt_truthy (row_get row ''ad_code'' (Some []))
     \<longrightarrow> (\<exists>req reqs.
            eligibility_request access_token ig_account_id (row_get row ''ad_code'' (Some [])) None
              = Inr req \<and>
            params req = Some [(''fields'', PVal (JStr fields_wanted)),
                               (''ad_code'', PVal (JStr (the (row_get row ''ad_code'' (Some [])))))] \<and>
            snd (process_row repr nt log access_token ig_account_id ad_account_id
                   facebook_page_id output_rows row)
            = log @ req # reqs))
   \<and> (opt_truthy (row_get row ''cta_type'' None) \<and> opt_truthy (row_get row ''link'' None) \<and>
      opt_truthy (row_get row ''ad_name'' None) \<and> opt_truthy (row_get row ''ad_set_id'' None) \<and>
      \<not> opt_truthy (row_get row ''ad_code'' (Some [])) \<and>
      opt_truthy (row_get row ''permalink'' (Some [])) \<and>
      extract_instagram_shortcode (the (row_get row ''permalink'' (Some []))) = Inr shortcode
     \<longrightarrow> (\<exists>req reqs.
            eligibility_request access_token ig_account_id None (Some [shortcode]) = Inr req \<and>
            params req = Some [(''fields'', PVal (JStr fields_wanted)),
                               (''permalinks'', PDumps (JArr [JStr shortcode]))] \<and>
            snd (process_row repr nt log access_token ig_account_id ad_account_id
                   facebook_page_id output_rows row)
            = log @ req # reqs))"
  (is "?missing \<and> ?noref \<and> ?by_code \<and> ?by_link")
proof -
  let ?P = "process_row repr nt log access_token ig_account_id ad_account_id facebook_page_id
              output_rows row"
  have missing: ?missing
  proof (rule impI)
    let ?req = "[(''cta_type'', row_get row ''cta_type'' None), (''link'', row_get row ''link'' None),
                 (''ad_name'', row_get row ''ad_name'' None),
                 (''ad_set_id'', row_get row ''ad_set_id'' None)]"
    let ?missing = "map fst (filter (\<lambda>(k, v). \<not> opt_truthy v) ?req)"
    assume a: "\<not> (opt_truthy (row_get row ''cta_type'' None) \<and>
                   opt_truthy (row_get row ''link'' None) \<and>
                   opt_truthy (row_get row ''ad_name'' None) \<and>
                   opt_truthy (row_get row ''ad_set_id'' None))"
    then have m: "?missing \<noteq> []" by auto
    have s: "set ?missing \<subseteq> {''cta_type'', ''link'', ''ad_name'', ''ad_set_id''}" by auto
    have "?P = (output_rows @
                 [set_result (row_copy row) ''failed''
                    (''Missing required fields: '' @ join '', '' ?missing)
                    (JStr []) (JStr []) (JStr [])],
               log)"
      by (rule process_row_missing[OF a])
    with m s show "\<exists>missing. missing \<noteq> [] \<and>
            set missing \<subseteq> {''cta_type'', ''link'', ''ad_name'', ''ad_set_id''} \<and>
            ?P = (output_rows @
                 [set_result (row_copy row) ''failed''
                    (''Missing required fields: '' @ join '', '' missing)
                    (JStr []) (JStr []) (JStr [])],
               log)"
      by blast
  qed
  have noref: ?noref by (rule impI) (simp add: process_row_no_reference)
  have by_code: ?by_code
  proof (rule impI)
    let ?ac = "row_get row ''ad_code'' (Some [])"
    let ?req = "\<lparr>verb = ''GET'',
                 url = JStr (''https://graph.facebook.com/v22.0/'' @ ig_account_id
                             @ ''/branded_content_advertisable_medias''),
                 headers = bearer_headers access_token,
                 params = Some ([(''fields'', PVal (JStr fields_wanted))]
                                @ [(''ad_code'', PVal (JStr (the ?ac)))]),
                 json_data = None\<rparr>"
    assume a: "opt_truthy (row_get row ''cta_type'' None) \<and> opt_truthy (row_get row ''link'' None) \<and>
      opt_truthy (row_get row ''ad_name'' None) \<and> opt_truthy (row_get row ''ad_set_id'' None) \<and>
      opt_truthy ?ac"
    then have v: "valid_fields row" by (simp add: valid_fields_def)
    have r: "eligibility_request access_token ig_account_id ?ac None = Inr ?req"
      using a by (simp add: eligibility_request_def Let_def)
    have "eligibility_lookup nt log access_token ig_account_id row
            = Some (fst (fetch_branded_content_advertisable_medias nt log access_token
                           ig_account_id ?ac None), log @ [?req])"
      using a fetch_request[OF r, of nt log] by (simp add: eligibility_lookup_def prod_eq_iff)
    from lookup_first_call[OF v this, of repr ad_account_id facebook_page_id output_rows]
    obtain reqs where "snd ?P = log @ ?req # reqs" ..
    with r show "\<exists>req reqs.
            eligibility_request access_token ig_account_id ?ac None = Inr req \<and>
            params req = Some [(''fields'', PVal (JStr fields_wanted)),
                               (''ad_code'', PVal (JStr (the ?ac)))] \<and>
            snd ?P = log @ req # reqs"
      by (intro exI[of _ ?req] exI[of _ reqs]) simp
  qed
  have by_link: ?by_link
  proof (rule impI)
    let ?ac = "row_get row ''ad_code'' (Some [])"
    let ?pl = "row_get row ''permalink'' (Some [])"
    let ?req = "\<lparr>verb = ''GET'',
                 url = JStr (''https://graph.facebook.com/v22.0/'' @ ig_account_id
                             @ ''/branded_content_advertisable_medias''),
                 headers = bearer_headers access_token,
                 params = Some ([(''fields'', PVal (JStr fields_wanted))]
                                @ [(''permalinks'', PDumps (JArr (map JStr [shortcode])))]),
                 json_data = None\<rparr>"
    assume a: "opt_truthy (row_get row ''cta_type'' None) \<and> opt_truthy (row_get row ''link'' None) \<and>
      opt_truthy (row_get row ''ad_name'' None) \<and> opt_truthy (row_get row ''ad_set_id'' None) \<and>
      \<not> opt_truthy ?ac \<and> opt_truthy ?pl \<and>
      extract_instagram_shortcode (the ?pl) = Inr shortcode"
    then have v: "valid_fields row" by (simp add: valid_fields_def)
    have r: "eligibility_request access_token ig_account_id None (Some [shortcode]) = Inr ?req"
      by (simp add: eligibility_request_def Let_def opt_truthy_def)
    have "eligibility_lookup nt log access_token ig_account_id row
            = Some (fst (fetch_branded_content_advertisable_medias nt log access_token
                           ig_account_id None (Some [shortcode])), log @ [?req])"
      using a fetch_request[OF r, of nt log] by (simp add: eligibility_lookup_def prod_eq_iff)
    from lookup_first_call[OF v this, of repr ad_account_id facebook_page_id output_rows]
    obtain reqs where "snd ?P = log @ ?req # reqs" ..
    with r show "\<exists>req reqs.
            eligibility_request access_token ig_account_id None (Some [shortcode]) = Inr req \<and>
            params req = Some [(''fields'', PVal (JStr fields_wanted)),
                               (''permalinks'', PDumps (JArr [JStr shortcode]))] \<and>
            snd ?P = log @ req # reqs"
      by (intro exI[of _ ?req] exI[of _ reqs]) simp
  qed
  from missing noref by_code by_link show ?thesis by (intro conjI)
qed

theorem validation_fails_without_calls_witness:
  "snd (process_row no_repr timeout_net [] ''tok'' ''ig'' ''act'' ''page'' [] missing_fields_row) = []
   \<and> process_row no_repr timeout_net [] ''tok'' ''ig'' ''act'' ''page'' []
       (sample_row [] [] ''Ad 1'')
     = ([set_result (row_copy (sample_row [] [] ''Ad 1'')) ''failed''
           ''Either permalink or ad_code must be provided'' (JStr []) (JStr []) (JStr [])], [])
   \<and> params (hd (snd (process_row no_repr timeout_net [] ''tok'' ''ig'' ''act'' ''page'' []
                        (sample_row ''https://www.instagram.com/p/abc123/'' ''AC1'' ''Ad 1''))))
     = Some [(''fields'', PVal (JStr fields_wanted)), (''ad_code'', PVal (JStr ''AC1''))]"
proof -
  let ?both = "sample_row ''https://www.instagram.com/p/abc123/'' ''AC1'' ''Ad 1''"
  have 1: "\<not> (opt_truthy (row_get missing_fields_row ''cta_type'' None) \<and>
              opt_truthy (row_get missing_fields_row ''link'' None) \<and>
              opt_truthy (row_get missing_fields_row ''ad_name'' None) \<and>
              opt_truthy (row_get missing_fields_row ''ad_set_id'' None))"
    by (simp add: missing_fields_row_def row_get_def entry_def opt_truthy_def)
  have 2: "opt_truthy (row_get (sample_row [] [] ''Ad 1'') ''cta_type'' None) \<and>
           opt_truthy (row_get (sample_row [] [] ''Ad 1'') ''link'' None) \<and>
           opt_truthy (row_get (sample_row [] [] ''Ad 1'') ''ad_name'' None) \<and>
           opt_truthy (row_get (sample_row [] [] ''Ad 1'') ''ad_set_id'' None) \<and>
           \<not> opt_truthy (row_get (sample_row [] [] ''Ad 1'') ''permalink'' (Some [])) \<and>
           \<not> opt_truthy (row_get (sample_row [] [] ''Ad 1'') ''ad_code'' (Some []))"
    by (simp add: sample_row_def row_get_def entry_def opt_truthy_def)
  have 3: "opt_truthy (row_get ?both ''cta_type'' None) \<and>
           opt_truthy (row_get ?both ''link'' None) \<and>
           opt_truthy (row_get ?both ''ad_name'' None) \<and>
           opt_truthy (row_get ?both ''ad_set_id'' None) \<and>
           opt_truthy (row_get ?both ''ad_code'' (Some []))"
    by (simp add: sample_row_def row_get_def entry_def opt_truthy_def)
  have ac: "the (row_get ?both ''ad_code'' (Some [])) = ''AC1''"
    by (simp add: sample_row_def row_get_def entry_def)
  note t1 = validation_fails_without_calls[of missing_fields_row no_repr timeout_net "[]"
         "''tok''" "''ig''" "''act''" "''page''" "[]", THEN conjunct1, THEN mp, OF 1]
  then obtain missing where
    "process_row no_repr timeout_net [] ''tok'' ''ig'' ''act'' ''page'' [] missing_fields_row
     = ([] @ [set_result (row_copy missing_fields_row) ''failed''
                (''Missing required fields: '' @ join '', '' missing)
                (JStr []) (JStr []) (JStr [])], [])"
    by blast
  then have a: "snd (process_row no_repr timeout_net [] ''tok'' ''ig'' ''act'' ''page'' []
                  missing_fields_row) = []"
    by simp
  from 2 validation_fails_without_calls[of "sample_row [] [] ''Ad 1''" no_repr timeout_net "[]"
         "''tok''" "''ig''" "''act''" "''page''" "[]", THEN conjunct2, THEN conjunct1]
  have b: "process_row no_repr timeout_net [] ''tok'' ''ig'' ''act'' ''page'' []
       (sample_row [] [] ''Ad 1'')
     = ([set_result (row_copy (sample_row [] [] ''Ad 1'')) ''failed''
           ''Either permalink or ad_code must be provided'' (JStr []) (JStr []) (JStr [])], [])"
    by simp
  note t3 = validation_fails_without_calls[of ?both no_repr timeout_net "[]"
         "''tok''" "''ig''" "''act''" "''page''" "[]", THEN conjunct2, THEN conjunct2,
         THEN conjunct1, THEN mp, OF 3]
  then obtain req reqs where
    r: "params req = Some [(''fields'', PVal (JStr fields_wanted)),
                           (''ad_code'', PVal (JStr (the (row_get ?both ''ad_code'' (Some [])))))]"
    and s: "snd (process_row no_repr timeout_net [] ''tok'' ''ig'' ''act'' ''page'' [] ?both)
            = [] @ req # reqs"
    by blast
  from r s ac have c: "params (hd (snd (process_row no_repr timeout_net [] ''tok'' ''ig'' ''act''
                                   ''page'' [] ?both)))
     = Some [(''fields'', PVal (JStr fields_wanted)), (''ad_code'', PVal (JStr ''AC1''))]"
    by simp
  from a b c show ?thesis by (intro conjI)
qed

text \<open>
  Claim C3 as stated fails for a row that supplies both \<open>permalink\<close> and \<open>ad_code\<close>: it
  passes validation, its first call is the eligibility lookup by \<open>ad_code\<close> and, when the
  four calls succeed, it ends as a success.
\<close>

theorem both_references_counterexample:
  "opt_truthy (row_get (sample_row ''https://www.instagram.com/p/abc123/'' ''AC1'' ''Ad 1'')
                 ''permalink'' (Some []))
   \<and> opt_truthy (row_get (sample_row ''https://www.instagram.com/p/abc123/'' ''AC1'' ''Ad 1'')
                 ''ad_code'' (Some []))
   \<and> fst (process_row no_repr (scripted all_ok_script) [] ''tok'' ''ig'' ''act'' ''page'' []
            (sample_row ''https://www.instagram.com/p/abc123/'' ''AC1'' ''Ad 1''))
     = [set_result (row_copy (sample_row ''https://www.instagram.com/p/abc123/'' ''AC1'' ''Ad 1''))
          ''success'' [] (JStr ''video_123'') (JStr ''creative_123'') (JStr ''ad_123'')]
   \<and> length (snd (process_row no_repr (scripted all_ok_script) [] ''tok'' ''ig'' ''act'' ''page'' []
            (sample_row ''https://www.instagram.com/p/abc123/'' ''AC1'' ''Ad 1''))) = 4
   \<and> params (hd (snd (process_row no_repr (scripted all_ok_script) [] ''tok'' ''ig'' ''act''
            ''page'' [] (sample_row ''https://www.instagram.com/p/abc123/'' ''AC1'' ''Ad 1''))))
     = Some [(''fields'', PVal (JStr fields_wanted)), (''ad_code'', PVal (JStr ''AC1''))]"
  by (simp add: booster_eval all_ok_script_def Let_def)





subsection \<open>The keys of the rows and of the records\<close>



















lemma str_items_strings: "str_items i (map JStr codes) = Inr codes"
  by (induction codes arbitrary: i) simp_all

lemma media_no_id:
  assumes "check_eligibility repr ac (JObj d) = Inr None" and "\<not> truthy (dict_get d ''id'' JNull)"
  shows "handle_raised outs orow
           (media_stage repr nt log a ig b pg outs orow ac cta lnk al n s ps (JObj d))
         = (outs @ [set_result orow ''failed'' ''Media ID not found in eligibility response''
                      (JStr []) (JStr []) (JStr [])], log)"
  using assms by (simp add: media_stage_def handle_raised_def opt_truthy_def)

lemma check_null: "check_eligibility repr ac JNull = Inr (Some ''Failed to fetch media eligibility'')"
  by (simp add: check_eligibility_def)

lemma check_error:
  assumes "truthy (dict_get d ''error'' JNull)"
  shows "check_eligibility repr ac (JObj d)
           = Inr (Some (''API Error: '' @ py_str repr (dict_get d ''error'' JNull)))"
proof -
  from assms have "d \<noteq> []" by (cases d) (simp_all add: dict_get_def)
  with assms show ?thesis by (simp add: check_eligibility_def)
qed

lemma check_errors_listed:
  assumes "opt_truthy ac" and "dict_get d ''eligibility_errors'' JNull = JArr errs"
    and "errs \<noteq> []" and "\<not> truthy (dict_get d ''error'' JNull)"
  shows "check_eligibility repr ac (JObj d)
           = (case str_items 0 errs of
                Inl e \<Rightarrow> Inl e
              | Inr ss \<Rightarrow> Inr (Some (''Eligibility errors: '' @ join '', '' ss)))"
proof -
  from assms(2) have d: "d \<noteq> []" by (cases d) (simp_all add: dict_get_def)
  from assms(2) have g: "dict_get d ''eligibility_errors'' (JArr []) = JArr errs"
    by (simp add: dict_get_def split: option.splits)
  from d assms g show ?thesis
    by (simp add: check_eligibility_def split: sum.splits)
qed

lemma ad_code_row:
  assumes "opt_truthy (row_get row ''cta_type'' None)" and "opt_truthy (row_get row ''link'' None)"
    and "opt_truthy (row_get row ''ad_name'' None)" and "opt_truthy (row_get row ''ad_set_id'' None)"
    and "opt_truthy (row_get row ''ad_code'' (Some []))"
    and "fetch_branded_content_advertisable_medias nt log a ig
           (row_get row ''ad_code'' (Some [])) None = (Inr elig, log1)"
  shows "process_row repr nt log a ig b pg outs row
         = handle_raised outs (row_copy row)
             (media_stage repr nt log1 a ig b pg outs (row_copy row)
                (row_get row ''ad_code'' (Some [])) (row_get row ''cta_type'' None)
                (row_get row ''link'' None) (row_get row ''app_link'' (Some []))
                (row_get row ''ad_name'' None) (row_get row ''ad_set_id'' None)
                (row_get row ''product_set_id'' (Some [])) elig)"
  using assms by (simp add: process_row_def Let_def row_try_def)

lemma fetch_log:
  assumes "opt_truthy ac"
    and "fetch_branded_content_advertisable_medias nt log a ig ac None = (res, log1)"
  shows "\<exists>req. eligibility_request a ig ac None = Inr req \<and> verb req = ''GET'' \<and>
           log1 = log @ [req]"
proof -
  let ?req = "\<lparr>verb = ''GET'',
               url = JStr (''https://graph.facebook.com/v22.0/'' @ ig
                           @ ''/branded_content_advertisable_medias''),
               headers = bearer_headers a,
               params = Some ([(''fields'', PVal (JStr fields_wanted))]
                              @ [(''ad_code'', PVal (JStr (the ac)))]),
               json_data = None\<rparr>"
  have r: "eligibility_request a ig ac None = Inr ?req"
    using assms(1) by (simp add: eligibility_request_def Let_def)
  then have "snd (fetch_branded_content_advertisable_medias nt log a ig ac None) = log @ [?req]"
    by (simp add: fetch_branded_content_advertisable_medias_def split: sum.splits)
  with assms(2) have "log1 = log @ [?req]" by simp
  with r show ?thesis by simp
qed

lemma fetch_non200:
  assumes "eligibility_request a ig ac pl = Inr req" and "nt log req = Inr response"
    and "status_code response \<noteq> 200"
  shows "fetch_branded_content_advertisable_medias nt log a ig ac pl
           = (Inr (JObj [(''error'', JStr (resp_text response))]), log @ [req])"
  using assms by (simp add: fetch_branded_content_advertisable_medias_def)

lemma fetch_no_data:
  assumes "eligibility_request a ig ac pl = Inr req" and "nt log req = Inr response"
    and "status_code response = 200" and "json response = Inr body"
    and "map_of body ''data'' = None \<or> map_of body ''data'' = Some (JArr [])"
  shows "fetch_branded_content_advertisable_medias nt log a ig ac pl = (Inr JNull, log @ [req])"
  using assms by (auto simp: fetch_branded_content_advertisable_medias_def first_media_def)

text \<open>
  Claim C10, as the code has it. For a row with its required fields and an \<open>ad_code\<close>, take what the eligibility
  lookup returned. The lookup made exactly one call, a GET. If it returned nothing (a 200
  response without \<open>data\<close> or with an empty \<open>data\<close>), or a \<open>dict\<close> with a non-empty \<open>error\<close>
  entry, or the \<open>dict\<close> \<open>{"error": text}\<close> that a non-200 response is turned into, or a
  \<open>dict\<close> with a non-empty \<open>eligibility_errors\<close> list, then the row is recorded as failed
  with empty ids and the log holds that one call and no other: no upload, creative or ad
  call is made. With a non-empty list of string codes and no \<open>error\<close> entry the message is
  \<open>Eligibility errors: \<close> followed by the codes joined with a comma and a space. The
  permission flag plays no part.
\<close>

theorem ad_code_eligibility_failures:
  assumes "opt_truthy (row_get row ''cta_type'' None)" and "opt_truthy (row_get row ''link'' None)"
    and "opt_truthy (row_get row ''ad_name'' None)" and "opt_truthy (row_get row ''ad_set_id'' None)"
    and "opt_truthy (row_get row ''ad_code'' (Some []))"
    and "fetch_branded_content_advertisable_medias nt log access_token ig_account_id
           (row_get row ''ad_code'' (Some [])) None = (Inr eligibility, log1)"
  shows
    "(\<exists>req. eligibility_request access_token ig_account_id (row_get row ''ad_code'' (Some [])) None
             = Inr req \<and> verb req = ''GET'' \<and> log1 = log @ [req])
     \<and> (eligibility = JNull \<longrightarrow>
          process_row repr nt log access_token ig_account_id ad_account_id facebook_page_id
            output_rows row
          = (output_rows @ [failed_record row ''Failed to fetch media eligibility''], log1))
     \<and> (\<forall>d. eligibility = JObj d \<and> truthy (dict_get d ''error'' JNull) \<longrightarrow>
          process_row repr nt log access_token ig_account_id ad_account_id facebook_page_id
            output_rows row
          = (output_rows @
               [failed_record row (''API Error: '' @ py_str repr (dict_get d ''error'' JNull))],
             log1))
     \<and> (\<forall>raw. eligibility = JObj [(''error'', JStr raw)] \<longrightarrow>
          (\<exists>msg. msg \<noteq> [] \<and>
             process_row repr nt log access_token ig_account_id ad_account_id facebook_page_id
               output_rows row
             = (output_rows @ [failed_record row msg], log1)))
     \<and> (\<forall>d errs. eligibility = JObj d \<and> dict_get d ''eligibility_errors'' JNull = JArr errs \<and>
            errs \<noteq> [] \<longrightarrow>
          (\<exists>msg. msg \<noteq> [] \<and>
             process_row repr nt log access_token ig_account_id ad_account_id facebook_page_id
               output_rows row
             = (output_rows @ [failed_record row msg], log1) \<and>
             (\<forall>codes. \<not> truthy (dict_get d ''error'' JNull) \<and> errs = map JStr codes \<longrightarrow>
                msg = ''Eligibility errors: '' @ join '', '' codes)))
     \<and> (\<forall>req response.
          eligibility_request access_token ig_account_id (row_get row ''ad_code'' (Some [])) None
            = Inr req \<and> nt log req = Inr response \<and> status_code response \<noteq> 200 \<longrightarrow>
          eligibility = JObj [(''error'', JStr (resp_text response))])
     \<and> (\<forall>req response body.
          eligibility_request access_token ig_account_id (row_get row ''ad_code'' (Some [])) None
            = Inr req \<and> nt log req = Inr response \<and> status_code response = 200 \<and>
          json response = Inr body \<and>
          (map_of body ''data'' = None \<or> map_of body ''data'' = Some (JArr [])) \<longrightarrow>
          eligibility = JNull)"
proof -
  let ?ac = "row_get row ''ad_code'' (Some [])"
  let ?P = "process_row repr nt log access_token ig_account_id ad_account_id facebook_page_id
              output_rows row"
  let ?M = "\<lambda>e. handle_raised output_rows (row_copy row)
             (media_stage repr nt log1 access_token ig_account_id ad_account_id facebook_page_id
                output_rows (row_copy row) ?ac (row_get row ''cta_type'' None)
                (row_get row ''link'' None) (row_get row ''app_link'' (Some []))
                (row_get row ''ad_name'' None) (row_get row ''ad_set_id'' None)
                (row_get row ''product_set_id'' (Some [])) e)"
  have P: "?P = ?M eligibility" by (rule ad_code_row[OF assms])
  have c1: "\<exists>req. eligibility_request access_token ig_account_id ?ac None = Inr req \<and>
              verb req = ''GET'' \<and> log1 = log @ [req]"
    by (rule fetch_log[OF assms(5) assms(6)])
  have c2: "eligibility = JNull \<longrightarrow>
              ?P = (output_rows @ [failed_record row ''Failed to fetch media eligibility''], log1)"
  proof
    assume "eligibility = JNull"
    with P show "?P = (output_rows @ [failed_record row ''Failed to fetch media eligibility''], log1)"
      by (simp add: media_faulted[OF check_null] failed_record_def)
  qed
  have c3: "\<forall>d. eligibility = JObj d \<and> truthy (dict_get d ''error'' JNull) \<longrightarrow>
          ?P = (output_rows @
               [failed_record row (''API Error: '' @ py_str repr (dict_get d ''error'' JNull))],
             log1)"
  proof (intro allI impI)
    fix d assume h: "eligibility = JObj d \<and> truthy (dict_get d ''error'' JNull)"
    then have "check_eligibility repr ?ac (JObj d)
                 = Inr (Some (''API Error: '' @ py_str repr (dict_get d ''error'' JNull)))"
      by (simp add: check_error)
    from media_faulted[OF this] h P
    show "?P = (output_rows @
               [failed_record row (''API Error: '' @ py_str repr (dict_get d ''error'' JNull))],
             log1)"
      by (simp add: failed_record_def)
  qed
  have c4: "\<forall>raw. eligibility = JObj [(''error'', JStr raw)] \<longrightarrow>
          (\<exists>msg. msg \<noteq> [] \<and> ?P = (output_rows @ [failed_record row msg], log1))"
  proof (intro allI impI)
    fix raw assume e: "eligibility = JObj [(''error'', JStr raw)]"
    show "\<exists>msg. msg \<noteq> [] \<and> ?P = (output_rows @ [failed_record row msg], log1)"
    proof (cases "raw = []")
      case True
      have "check_eligibility repr ?ac (JObj [(''error'', JStr raw)]) = Inr None"
        using True assms(5) by (simp add: check_eligibility_def dict_get_def)
      from media_no_id[OF this] P e
      have "?P = (output_rows @
                    [failed_record row ''Media ID not found in eligibility response''], log1)"
        by (simp add: failed_record_def dict_get_def)
      then show ?thesis by blast
    next
      case False
      then have "truthy (dict_get [(''error'', JStr raw)] ''error'' JNull)"
        by (simp add: dict_get_def)
      with c3 e have "?P = (output_rows @
               [failed_record row (''API Error: ''
                  @ py_str repr (dict_get [(''error'', JStr raw)] ''error'' JNull))], log1)"
        by blast
      then show ?thesis by (intro exI[of _ "''API Error: ''
                  @ py_str repr (dict_get [(''error'', JStr raw)] ''error'' JNull)"]) simp
    qed
  qed
  have c5: "\<forall>d errs. eligibility = JObj d \<and> dict_get d ''eligibility_errors'' JNull = JArr errs \<and>
            errs \<noteq> [] \<longrightarrow>
          (\<exists>msg. msg \<noteq> [] \<and> ?P = (output_rows @ [failed_record row msg], log1) \<and>
             (\<forall>codes. \<not> truthy (dict_get d ''error'' JNull) \<and> errs = map JStr codes \<longrightarrow>
                msg = ''Eligibility errors: '' @ join '', '' codes))"
  proof (intro allI impI)
    fix d errs
    assume h: "eligibility = JObj d \<and> dict_get d ''eligibility_errors'' JNull = JArr errs \<and>
                 errs \<noteq> []"
    show "\<exists>msg. msg \<noteq> [] \<and> ?P = (output_rows @ [failed_record row msg], log1) \<and>
             (\<forall>codes. \<not> truthy (dict_get d ''error'' JNull) \<and> errs = map JStr codes \<longrightarrow>
                msg = ''Eligibility errors: '' @ join '', '' codes)"
    proof (cases "truthy (dict_get d ''error'' JNull)")
      case True
      with c3 h have "?P = (output_rows @
               [failed_record row (''API Error: '' @ py_str repr (dict_get d ''error'' JNull))],
             log1)"
        by blast
      with True show ?thesis
        by (intro exI[of _ "''API Error: '' @ py_str repr (dict_get d ''error'' JNull)"]) simp
    next
      case False
      from h have ce: "check_eligibility repr ?ac (JObj d)
           = (case str_items 0 errs of
                Inl e \<Rightarrow> Inl e
              | Inr ss \<Rightarrow> Inr (Some (''Eligibility errors: '' @ join '', '' ss)))"
        using check_errors_listed[OF assms(5) _ _ False] by blast
      show ?thesis
      proof (cases "str_items 0 errs")
        case (Inl e)
        with ce have "check_eligibility repr ?ac (JObj d) = Inl e" by simp
        from media_check_raised[OF this] P h
        have p: "?P = (output_rows @
                      [failed_record row (''Unexpected error: '' @ str_exn e)], log1)"
          by (simp add: failed_record_def)
        have "\<forall>codes. errs = map JStr codes \<longrightarrow> False"
          using Inl by (auto simp: str_items_strings)
        with p show ?thesis
          by (intro exI[of _ "''Unexpected error: '' @ str_exn e"]) simp
      next
        case (Inr ss)
        with ce have "check_eligibility repr ?ac (JObj d)
                        = Inr (Some (''Eligibility errors: '' @ join '', '' ss))"
          by simp
        from media_faulted[OF this] P h
        have p: "?P = (output_rows @
                      [failed_record row (''Eligibility errors: '' @ join '', '' ss)], log1)"
          by (simp add: failed_record_def)
        have "\<forall>codes. errs = map JStr codes \<longrightarrow> ss = codes"
          using Inr by (auto simp: str_items_strings)
        with p show ?thesis
          by (intro exI[of _ "''Eligibility errors: '' @ join '', '' ss"]) simp
      qed
    qed
  qed
  have c6: "\<forall>req response.
          eligibility_request access_token ig_account_id ?ac None = Inr req \<and>
          nt log req = Inr response \<and> status_code response \<noteq> 200 \<longrightarrow>
          eligibility = JObj [(''error'', JStr (resp_text response))]"
    using assms(6) by (auto dest: fetch_non200)
  have c7: "\<forall>req response body.
          eligibility_request access_token ig_account_id ?ac None = Inr req \<and>
          nt log req = Inr response \<and> status_code response = 200 \<and>
          json response = Inr body \<and>
          (map_of body ''data'' = None \<or> map_of body ''data'' = Some (JArr [])) \<longrightarrow>
          eligibility = JNull"
  proof (intro allI impI)
    fix req response body
    assume "eligibility_request access_token ig_account_id ?ac None = Inr req \<and>
          nt log req = Inr response \<and> status_code response = 200 \<and>
          json response = Inr body \<and>
          (map_of body ''data'' = None \<or> map_of body ''data'' = Some (JArr []))"
    then have "fetch_branded_content_advertisable_medias nt log access_token ig_account_id ?ac None
                 = (Inr JNull, log @ [req])"
      using fetch_no_data[of access_token ig_account_id ?ac None req nt log response body]
      by blast
    with assms(6) show "eligibility = JNull" by simp
  qed
  from c1 c2 c3 c4 c5 c6 c7 show ?thesis by (intro conjI)
qed


theorem ad_code_eligibility_failures_witness:
  "fst (process_row no_repr (scripted ineligible_script) [] ''tok'' ''ig'' ''act'' ''page'' []
          (sample_row [] ''AC1'' ''Ad 1''))
     = [failed_record (sample_row [] ''AC1'' ''Ad 1'') ''Eligibility errors: ERROR_1, ERROR_2'']
   \<and> length (snd (process_row no_repr (scripted ineligible_script) [] ''tok'' ''ig'' ''act''
                    ''page'' [] (sample_row [] ''AC1'' ''Ad 1''))) = 1"
proof -
  let ?row = "sample_row [] ''AC1'' ''Ad 1''"
  let ?d = "[(''id'', JStr ''media_123''), (''has_permission_for_partnership_ad'', JBool False),
             (''eligibility_errors'', JArr [JStr ''ERROR_1'', JStr ''ERROR_2''])]"
  let ?F = "fetch_branded_content_advertisable_medias (scripted ineligible_script) [] ''tok'' ''ig''
              (row_get ?row ''ad_code'' (Some [])) None"
  let ?P = "process_row no_repr (scripted ineligible_script) [] ''tok'' ''ig'' ''act'' ''page'' []
              ?row"
  have v: "opt_truthy (row_get ?row ''cta_type'' None)" "opt_truthy (row_get ?row ''link'' None)"
          "opt_truthy (row_get ?row ''ad_name'' None)" "opt_truthy (row_get ?row ''ad_set_id'' None)"
          "opt_truthy (row_get ?row ''ad_code'' (Some []))"
    by (simp_all add: sample_row_def row_get_def entry_def opt_truthy_def)
  have "fst ?F = Inr (JObj ?d)"
    by (simp add: booster_eval ineligible_script_def Let_def)
  then have F: "?F = (Inr (JObj ?d), snd ?F)" by (simp add: prod_eq_iff)
  note t = ad_code_eligibility_failures[OF v F, of no_repr "''act''" "''page''" "[]"]
  from t[THEN conjunct1] obtain req where
    rq: "eligibility_request ''tok'' ''ig'' (row_get ?row ''ad_code'' (Some [])) None = Inr req \<and>
         verb req = ''GET'' \<and> snd ?F = [] @ [req]" ..
  then have l: "length (snd ?F) = 1" by simp
  have e: "JObj ?d = JObj ?d \<and>
           dict_get ?d ''eligibility_errors'' JNull = JArr [JStr ''ERROR_1'', JStr ''ERROR_2''] \<and>
           [JStr ''ERROR_1'', JStr ''ERROR_2''] \<noteq> []"
    by (simp add: dict_get_def)
  note c5 = t[THEN conjunct2, THEN conjunct2, THEN conjunct2, THEN conjunct2, THEN conjunct1,
              THEN spec, THEN spec, THEN mp, OF e]
  from c5 obtain msg where
    pm: "msg \<noteq> [] \<and> ?P = ([] @ [failed_record ?row msg], snd ?F) \<and>
         (\<forall>codes. \<not> truthy (dict_get ?d ''error'' JNull) \<and>
              [JStr ''ERROR_1'', JStr ''ERROR_2''] = map JStr codes \<longrightarrow>
              msg = ''Eligibility errors: '' @ join '', '' codes)" ..
  have h: "\<not> truthy (dict_get ?d ''error'' JNull) \<and>
        [JStr ''ERROR_1'', JStr ''ERROR_2''] = map JStr [''ERROR_1'', ''ERROR_2'']"
    by (simp add: dict_get_def)
  from pm[THEN conjunct2, THEN conjunct2, THEN spec, THEN mp, OF h]
  have "msg = ''Eligibility errors: ERROR_1, ERROR_2''" by simp
  with pm[THEN conjunct2, THEN conjunct1] l show ?thesis by simp
qed

text \<open>
  Claim C10 as stated fails in two ways. A record that carries an \<open>error\<close> key with an
  empty value is not a failure: the chain tests the value, not the key, and the row goes
  on to a success after all four calls. And a non-empty \<open>eligibility_errors\<close> list whose
  items are not strings fails the row, but with the message of the \<open>TypeError\<close> that
  \<open>join\<close> raises, not with \<open>Eligibility errors: ...\<close>.
\<close>

theorem error_key_counterexample:
  "opt_truthy (row_get (sample_row [] ''AC1'' ''Ad 1'') ''ad_code'' (Some []))
   \<and> fst (fetch_branded_content_advertisable_medias (scripted empty_error_script) [] ''tok''
            ''ig'' (Some ''AC1'') None)
     = Inr (JObj [(''error'', JStr []), (''id'', JStr ''media_123'')])
   \<and> fst (process_row no_repr (scripted empty_error_script) [] ''tok'' ''ig'' ''act'' ''page'' []
            (sample_row [] ''AC1'' ''Ad 1''))
     = [result_record (sample_row [] ''AC1'' ''Ad 1'') ''success'' []
          (JStr ''video_123'') (JStr ''creative_123'') (JStr ''ad_123'')]
   \<and> length (snd (process_row no_repr (scripted empty_error_script) [] ''tok'' ''ig'' ''act''
                    ''page'' [] (sample_row [] ''AC1'' ''Ad 1''))) = 4
   \<and> fst (fetch_branded_content_advertisable_medias (scripted numeric_codes_script) [] ''tok''
            ''ig'' (Some ''AC1'') None)
     = Inr (JObj [(''id'', JStr ''media_123''), (''eligibility_errors'', JArr [JNum 7])])
   \<and> fst (process_row no_repr (scripted numeric_codes_script) [] ''tok'' ''ig'' ''act'' ''page'' []
            (sample_row [] ''AC1'' ''Ad 1''))
     = [failed_record (sample_row [] ''AC1'' ''Ad 1'')
          ''Unexpected error: sequence item 0: expected str instance, int found'']"
  by (simp add: booster_eval empty_error_script_def empty_error_media_def
        numeric_codes_script_def numeric_codes_media_def result_record_def failed_record_def
        Let_def)

section \<open>Properties of the pagination fetcher\<close>

lemma data_block_unlimited:
  "data_block None owp rd [] =
     (case map_of rd ''data'' of
        None \<Rightarrow> GoesOn []
      | Some medias \<Rightarrow> (case admitted owp medias of None \<Rightarrow> DataRaises | Some ms \<Rightarrow> GoesOn ms))"
  by (simp add: data_block_def limit_reached_def Let_def split: option.splits)

lemma data_block_limited:
  assumes "data_block None owp rd [] = GoesOn ms" and "0 < N"
  shows "data_block (Some N) owp rd acc =
           (if map_of rd ''data'' \<noteq> None \<and> N \<le> int (length (acc @ ms))
              then LimitReached (take (nat N) (acc @ ms))
            else GoesOn (acc @ ms))"
proof (cases "map_of rd ''data''")
  case None
  with assms(1) have "ms = []" by (simp add: data_block_unlimited)
  with None show ?thesis by (simp add: data_block_def)
next
  case (Some medias)
  with assms(1) have "admitted owp medias = Some ms"
    by (simp add: data_block_unlimited split: option.splits)
  with Some assms(2) show ?thesis
    by (simp add: data_block_def limit_reached_def py_slice_to_def Let_def)
qed

lemma pages_nonempty:
  assumes "pages K nt hdrs owp u ps log \<noteq> []"
  shows "\<exists>K' rd ms. K = Suc K' \<and> read_page nt log hdrs u ps = Some rd \<and>
           data_block None owp rd [] = GoesOn ms \<and>
           pages K nt hdrs owp u ps log
             = ms # (case paging_block rd of
                       Next u' \<Rightarrow> pages K' nt hdrs owp u' [] (log @ [page_request hdrs u ps])
                     | _ \<Rightarrow> [])"
proof (cases K)
  case 0
  with assms show ?thesis by simp
next
  case (Suc K')
  with assms obtain rd where rd: "read_page nt log hdrs u ps = Some rd"
    by (cases "read_page nt log hdrs u ps") auto
  with assms Suc obtain ms where ms: "data_block None owp rd [] = GoesOn ms"
    by (cases "data_block None owp rd []") auto
  have "pages K nt hdrs owp u ps log
          = ms # (case paging_block rd of
                    Next u' \<Rightarrow> pages K' nt hdrs owp u' [] (log @ [page_request hdrs u ps])
                  | _ \<Rightarrow> [])"
    using Suc rd ms by (simp split: paging_effect.splits)
  with Suc rd ms show ?thesis by blast
qed


lemma limited_run:
  assumes "0 < N"
  shows "k < length (pages K nt hdrs owp u ps log) \<Longrightarrow> k < fuel \<Longrightarrow>
         length acc + length (concat (take k (pages K nt hdrs owp u ps log))) < nat N \<Longrightarrow>
         nat N \<le> length acc + length (concat (take (Suc k) (pages K nt hdrs owp u ps log))) \<Longrightarrow>
         \<exists>log'. fetch_loop fuel nt hdrs (Some N) owp u ps acc log
                  = Some (Fetched (take (nat N)
                            (acc @ concat (take (Suc k) (pages K nt hdrs owp u ps log)))), log')
                \<and> length log' = length log + Suc k"
proof (induction k arbitrary: K fuel u ps acc log)
  case 0
  let ?P = "pages K nt hdrs owp u ps log"
  from 0(1) have "?P \<noteq> []" by auto
  from pages_nonempty[OF this] obtain K' rd ms where
    rd: "read_page nt log hdrs u ps = Some rd" and
    ms: "data_block None owp rd [] = GoesOn ms" and
    P: "?P = ms # (case paging_block rd of
                     Next u' \<Rightarrow> pages K' nt hdrs owp u' [] (log @ [page_request hdrs u ps])
                   | _ \<Rightarrow> [])"
    by blast
  from 0(2) obtain f where f: "fuel = Suc f" by (cases fuel) auto
  from 0(3) have lt: "length acc < nat N" by simp
  from 0(4) P have ge: "nat N \<le> length acc + length ms" by simp
  have data: "map_of rd ''data'' \<noteq> None"
  proof
    assume "map_of rd ''data'' = None"
    with ms have "ms = []" by (simp add: data_block_unlimited)
    with lt ge show False by simp
  qed
  from ge assms have "N \<le> int (length (acc @ ms))" by simp
  with data have db: "data_block (Some N) owp rd acc = LimitReached (take (nat N) (acc @ ms))"
    by (simp add: data_block_limited[OF ms assms])
  have "fetch_loop fuel nt hdrs (Some N) owp u ps acc log
          = Some (Fetched (take (nat N) (acc @ ms)), log @ [page_request hdrs u ps])"
    using f rd db by simp
  moreover have "concat (take (Suc 0) ?P) = ms" by (subst P) simp
  ultimately show ?case by simp
next
  case (Suc k)
  let ?P = "pages K nt hdrs owp u ps log"
  let ?log = "log @ [page_request hdrs u ps]"
  from Suc.prems(1) have "?P \<noteq> []" by auto
  from pages_nonempty[OF this] obtain K' rd ms where
    rd: "read_page nt log hdrs u ps = Some rd" and
    ms: "data_block None owp rd [] = GoesOn ms" and
    P: "?P = ms # (case paging_block rd of
                     Next u' \<Rightarrow> pages K' nt hdrs owp u' [] ?log
                   | _ \<Rightarrow> [])"
    by blast
  from Suc.prems(2) obtain f where f: "fuel = Suc f" and kf: "k < f" by (cases fuel) auto
  from Suc.prems(1) P obtain u' where nx: "paging_block rd = Next u'"
    by (cases "paging_block rd") auto
  let ?P' = "pages K' nt hdrs owp u' [] ?log"
  from P nx have P': "?P = ms # ?P'" by simp
  from Suc.prems(1) P' have k': "k < length ?P'" by simp
  from Suc.prems(3) P' have lt: "length (acc @ ms) + length (concat (take k ?P')) < nat N"
    by simp
  from Suc.prems(4) P' have ge: "nat N \<le> length (acc @ ms) + length (concat (take (Suc k) ?P'))"
    by simp
  from lt have "\<not> N \<le> int (length (acc @ ms))" by linarith
  then have db: "data_block (Some N) owp rd acc = GoesOn (acc @ ms)"
    by (simp add: data_block_limited[OF ms assms])
  have step: "fetch_loop fuel nt hdrs (Some N) owp u ps acc log
                = fetch_loop f nt hdrs (Some N) owp u' [] (acc @ ms) ?log"
    using f rd db nx by simp
  from Suc.IH[OF k' kf lt ge] obtain log' where
    r: "fetch_loop f nt hdrs (Some N) owp u' [] (acc @ ms) ?log
          = Some (Fetched (take (nat N) ((acc @ ms) @ concat (take (Suc k) ?P'))), log')"
    and l: "length log' = length ?log + Suc k"
    by blast
  have "concat (take (Suc (Suc k)) ?P) = ms @ concat (take (Suc k) ?P')"
    by (subst P') simp
  with step r l show ?case by simp
qed


lemma data_block_zero:
  "data_block (Some 0) only_with_permission response_data all_medias
     = data_block None only_with_permission response_data all_medias"
  by (simp add: data_block_def limit_reached_def split: option.splits)

lemma fetch_loop_zero:
  "fetch_loop fuel nt hdrs (Some 0) only_with_permission u ps all_medias log
     = fetch_loop fuel nt hdrs None only_with_permission u ps all_medias log"
proof (induction fuel arbitrary: u ps all_medias log)
  case 0
  show ?case by simp
next
  case (Suc fuel)
  show ?case
    by (simp add: data_block_zero Suc
          split: option.splits data_effect.splits paging_effect.splits)
qed

text \<open>
  Claim C2, as the code has it. For a positive limit \<open>N\<close>, first, in one pass of the loop:
  when the page is read, has \<open>data\<close>, its (optionally filtered) items are \<open>ms\<close> and the total
  with them reaches \<open>N\<close>, the loop returns at once the first \<open>N\<close> items, exactly \<open>N\<close> of them,
  having made this one request more, whatever the page says about a next page. Second,
  for the whole fetch: if, without a limit, page \<open>k + 1\<close> is the first with which the admitted
  items reach \<open>N\<close>, then with the limit the fetch (given fuel for \<open>k + 1\<close> passes) returns
  exactly the first \<open>N\<close> admitted items and issues exactly \<open>k + 1\<close> page requests. The limit
  0 is no limit: from any state the loop, and so the fetch, does with the limit 0 what it
  does without a limit.
\<close>

theorem limit_truncates_and_stops:
  "(0 < N \<longrightarrow>
     ((\<forall>response_data medias ms.
        read_page nt log hdrs u ps = Some response_data \<and>
        map_of response_data ''data'' = Some medias \<and>
        admitted only_with_permission medias = Some ms \<and>
        N \<le> int (length (all_medias @ ms)) \<longrightarrow>
        fetch_loop (Suc fuel) nt hdrs (Some N) only_with_permission u ps all_medias log
          = Some (Fetched (take (nat N) (all_medias @ ms)), log @ [page_request hdrs u ps]) \<and>
        length (take (nat N) (all_medias @ ms)) = nat N)
     \<and> (\<forall>k K.
        k < length (pages K nt (bearer_headers access_token) only_with_permission
                      (first_url ig_account_id) (first_params creator_username) log) \<and>
        k < fuel \<and>
        length (concat (take k
                 (pages K nt (bearer_headers access_token) only_with_permission
                    (first_url ig_account_id) (first_params creator_username) log))) < nat N \<and>
        nat N \<le> length (concat (take (Suc k)
                 (pages K nt (bearer_headers access_token) only_with_permission
                    (first_url ig_account_id) (first_params creator_username) log))) \<longrightarrow>
        (\<exists>log'.
           fetch_all_advertisable_medias fuel nt log access_token ig_account_id creator_username
             (Some N) only_with_permission
           = Some (Fetched (take (nat N) (concat (take (Suc k)
                     (pages K nt (bearer_headers access_token) only_with_permission
                        (first_url ig_account_id) (first_params creator_username) log)))),
                   log') \<and>
           length log' = length log + Suc k \<and>
           length (take (nat N) (concat (take (Suc k)
                     (pages K nt (bearer_headers access_token) only_with_permission
                        (first_url ig_account_id) (first_params creator_username) log)))) = nat N))))
   \<and> fetch_loop fuel nt hdrs (Some 0) only_with_permission u ps all_medias log
     = fetch_loop fuel nt hdrs None only_with_permission u ps all_medias log
   \<and> fetch_all_advertisable_medias fuel nt log access_token ig_account_id creator_username
       (Some 0) only_with_permission
     = fetch_all_advertisable_medias fuel nt log access_token ig_account_id creator_username
         None only_with_permission"
proof -
  have main: "0 < N \<longrightarrow>
     ((\<forall>response_data medias ms.
        read_page nt log hdrs u ps = Some response_data \<and>
        map_of response_data ''data'' = Some medias \<and>
        admitted only_with_permission medias = Some ms \<and>
        N \<le> int (length (all_medias @ ms)) \<longrightarrow>
        fetch_loop (Suc fuel) nt hdrs (Some N) only_with_permission u ps all_medias log
          = Some (Fetched (take (nat N) (all_medias @ ms)), log @ [page_request hdrs u ps]) \<and>
        length (take (nat N) (all_medias @ ms)) = nat N)
     \<and> (\<forall>k K.
        k < length (pages K nt (bearer_headers access_token) only_with_permission
                      (first_url ig_account_id) (first_params creator_username) log) \<and>
        k < fuel \<and>
        length (concat (take k
                 (pages K nt (bearer_headers access_token) only_with_permission
                    (first_url ig_account_id) (first_params creator_username) log))) < nat N \<and>
        nat N \<le> length (concat (take (Suc k)
                 (pages K nt (bearer_headers access_token) only_with_permission
                    (first_url ig_account_id) (first_params creator_username) log))) \<longrightarrow>
        (\<exists>log'.
           fetch_all_advertisable_medias fuel nt log access_token ig_account_id creator_username
             (Some N) only_with_permission
           = Some (Fetched (take (nat N) (concat (take (Suc k)
                     (pages K nt (bearer_headers access_token) only_with_permission
                        (first_url ig_account_id) (first_params creator_username) log)))),
                   log') \<and>
           length log' = length log + Suc k \<and>
           length (take (nat N) (concat (take (Suc k)
                     (pages K nt (bearer_headers access_token) only_with_permission
                        (first_url ig_account_id) (first_params creator_username) log)))) = nat N)))"
  proof (rule impI)
    assume pos: "0 < N"
    show "(\<forall>response_data medias ms.
        read_page nt log hdrs u ps = Some response_data \<and>
        map_of response_data ''data'' = Some medias \<and>
        admitted only_with_permission medias = Some ms \<and>
        N \<le> int (length (all_medias @ ms)) \<longrightarrow>
        fetch_loop (Suc fuel) nt hdrs (Some N) only_with_permission u ps all_medias log
          = Some (Fetched (take (nat N) (all_medias @ ms)), log @ [page_request hdrs u ps]) \<and>
        length (take (nat N) (all_medias @ ms)) = nat N)
     \<and> (\<forall>k K.
        k < length (pages K nt (bearer_headers access_token) only_with_permission
                      (first_url ig_account_id) (first_params creator_username) log) \<and>
        k < fuel \<and>
        length (concat (take k
                 (pages K nt (bearer_headers access_token) only_with_permission
                    (first_url ig_account_id) (first_params creator_username) log))) < nat N \<and>
        nat N \<le> length (concat (take (Suc k)
                 (pages K nt (bearer_headers access_token) only_with_permission
                    (first_url ig_account_id) (first_params creator_username) log))) \<longrightarrow>
        (\<exists>log'.
           fetch_all_advertisable_medias fuel nt log access_token ig_account_id creator_username
             (Some N) only_with_permission
           = Some (Fetched (take (nat N) (concat (take (Suc k)
                     (pages K nt (bearer_headers access_token) only_with_permission
                        (first_url ig_account_id) (first_params creator_username) log)))),
                   log') \<and>
           length log' = length log + Suc k \<and>
           length (take (nat N) (concat (take (Suc k)
                     (pages K nt (bearer_headers access_token) only_with_permission
                        (first_url ig_account_id) (first_params creator_username) log)))) = nat N))"
  proof (intro conjI allI impI)
  fix response_data medias ms
  assume h: "read_page nt log hdrs u ps = Some response_data \<and>
        map_of response_data ''data'' = Some medias \<and>
        admitted only_with_permission medias = Some ms \<and>
        N \<le> int (length (all_medias @ ms))"
  then have "data_block None only_with_permission response_data [] = GoesOn ms"
    by (simp add: data_block_unlimited)
  from data_block_limited[OF this pos, of all_medias] h
  have "data_block (Some N) only_with_permission response_data all_medias
          = LimitReached (take (nat N) (all_medias @ ms))"
    by simp
  with h show "fetch_loop (Suc fuel) nt hdrs (Some N) only_with_permission u ps all_medias log
          = Some (Fetched (take (nat N) (all_medias @ ms)), log @ [page_request hdrs u ps])"
    by simp
  from h pos have "nat N \<le> length (all_medias @ ms)" by (simp add: nat_le_iff)
  then show "length (take (nat N) (all_medias @ ms)) = nat N"
    by (simp only: length_take min.absorb2)
next
  fix k K
  let ?P = "pages K nt (bearer_headers access_token) only_with_permission
              (first_url ig_account_id) (first_params creator_username) log"
  assume h: "k < length ?P \<and> k < fuel \<and> length (concat (take k ?P)) < nat N \<and>
             nat N \<le> length (concat (take (Suc k) ?P))"
  then have a: "k < length ?P" and b: "k < fuel"
    and c: "length ([] :: jval list) + length (concat (take k ?P)) < nat N"
    and d: "nat N \<le> length ([] :: jval list) + length (concat (take (Suc k) ?P))"
    by simp_all
  from limited_run[OF pos a b c d] obtain log' where
    "fetch_loop fuel nt (bearer_headers access_token) (Some N) only_with_permission
       (first_url ig_account_id) (first_params creator_username) [] log
       = Some (Fetched (take (nat N) ([] @ concat (take (Suc k) ?P))), log')"
    and "length log' = length log + Suc k"
    by blast
  moreover from h have "length (take (nat N) (concat (take (Suc k) ?P))) = nat N" by simp
  ultimately show "\<exists>log'.
           fetch_all_advertisable_medias fuel nt log access_token ig_account_id creator_username
             (Some N) only_with_permission
           = Some (Fetched (take (nat N) (concat (take (Suc k) ?P))), log') \<and>
           length log' = length log + Suc k \<and>
           length (take (nat N) (concat (take (Suc k) ?P))) = nat N"
    by (simp add: fetch_all_advertisable_medias_def)
qed
  qed
  have loop: "fetch_loop fuel nt hdrs (Some 0) only_with_permission u ps all_medias log
     = fetch_loop fuel nt hdrs None only_with_permission u ps all_medias log"
    by (rule fetch_loop_zero)
  have whole: "fetch_all_advertisable_medias fuel nt log access_token ig_account_id
       creator_username (Some 0) only_with_permission
     = fetch_all_advertisable_medias fuel nt log access_token ig_account_id creator_username
         None only_with_permission"
    by (simp add: fetch_all_advertisable_medias_def fetch_loop_zero)
  show ?thesis
    apply (rule conjI)
     apply (rule main)
    apply (rule conjI)
     apply (rule loop)
    apply (rule whole)
    done
qed

lemmas fetch_eval =
  fetch_all_advertisable_medias_def first_url_def first_params_def read_page_def
  page_request_def data_block_def paging_block_def admitted_def limit_reached_def
  py_slice_to_def bearer_headers_def fields_wanted_def opt_truthy_def scripted_def
  answer_def first_page_def last_page_def media_def dict_get_def

theorem limit_truncates_and_stops_witness:
  "(\<exists>log'. fetch_all_advertisable_medias 5 (scripted [first_page, last_page]) [] ''tok'' ''ig''
             (Some ''test_creator'') (Some 2) False
           = Some (Fetched [media ''0'', media ''1''], log') \<and> length log' = 1)"
proof -
  let ?P = "pages 1 (scripted [first_page, last_page]) (bearer_headers ''tok'') False
              (first_url ''ig'') (first_params (Some ''test_creator'')) []"
  have P: "?P = [[media ''0'', media ''1'', media ''2'']]"
    by (simp add: fetch_eval Let_def)
  have h: "0 < length ?P \<and> 0 < (5::nat) \<and> length (concat (take 0 ?P)) < nat 2 \<and>
           nat 2 \<le> length (concat (take (Suc 0) ?P))"
    unfolding P by simp
  have "(0::int) < 2" by simp
  from limit_truncates_and_stops[THEN conjunct1, THEN mp, OF this, THEN conjunct2, THEN spec,
         THEN spec, THEN mp, OF h]
  show ?thesis unfolding P by simp
qed

text \<open>
  Claim C2 as stated fails for the limit 0, which line 191 reads as no limit: with the
  permission filter on and three admitted items, the total has reached 0, yet three items
  are returned, not 0.
\<close>

theorem limit_zero_counterexample:
  "fetch_all_advertisable_medias 5 (scripted [last_page]) [] ''tok'' ''ig'' None (Some 0) True
     = Some (Fetched [media ''3'', media ''4'', media ''5''],
             [page_request (bearer_headers ''tok'') (first_url ''ig'') (first_params None)])
   \<and> (0::int) \<le> int (length [media ''3'', media ''4'', media ''5''])
   \<and> length [media ''3'', media ''4'', media ''5''] \<noteq> nat 0"
  by (simp add: fetch_eval Let_def eval_nat_numeral)

end
